theory Spec2Isabelle
  imports Complex_Main "HOL-Library.Sublist" "HOL-Library.Multiset" "HOL-Library.Word"
    "HOL-Library.Numeral_Type" "HOL-Library.Char_ord" "HOL-Library.List_Lexorder"
begin

section \<open>The fixed-window rate limiter (eshop\_client.py, class RateLimiter)\<close>

text \<open>
  Python integers are unbounded and are modelled by \<open>int\<close>. The readings of
  \<^verbatim>\<open>time.monotonic()\<close> and the durations the limiter hands to \<^verbatim>\<open>time.sleep\<close> are
  modelled by the real numbers they denote. The attribute \<^verbatim>\<open>_window_start\<close> is
  \<^verbatim>\<open>None\<close> until the first request, hence an option.

  The whole body of \<^verbatim>\<open>acquire\<close> runs under \<^verbatim>\<open>with self._lock\<close>
  (the sleep included), so concurrent callers are serialised and a run of the limiter is
  a sequence of calls of \<open>acquire\<close>, each executed atomically.
\<close>

record rate_limiter =
  rate :: int
  tokens :: int
  window_start :: "real option"

definition RateLimiter :: "int \<Rightarrow> rate_limiter" where
  "RateLimiter r = \<lparr>rate = r, tokens = r, window_start = None\<rparr>"

text \<open>
  \<open>acquire rl now woke\<close>: \<open>now\<close> is the reading of the clock on entry, \<open>woke\<close> the
  reading taken after the optional sleep (used only on the branch that reads the clock
  again). The result is the new limiter state and the duration passed to
  \<^verbatim>\<open>time.sleep\<close>, if it was called.
\<close>

definition acquire :: "rate_limiter \<Rightarrow> real \<Rightarrow> real \<Rightarrow> rate_limiter \<times> real option" where
  "acquire rl now woke =
     (let (ws, tk) = (case window_start rl of
                        None \<Rightarrow> (now, rate rl)
                      | Some ws0 \<Rightarrow> if now - ws0 \<ge> 1 then (now, rate rl) else (ws0, tokens rl))
      in if tk > 0 then (rl\<lparr>tokens := tk - 1, window_start := Some ws\<rparr>, None)
         else (let wait = 1 - (now - ws)
               in (rl\<lparr>tokens := rate rl - 1, window_start := Some woke\<rparr>,
                   if wait > 0 then Some wait else None)))"



section \<open>Python floats\<close>

text \<open>
  A Python float is an IEEE 754 double: a finite number, a negative zero, an infinity or
  NaN. \<open>Fin x\<close> is the finite float that denotes the real number \<open>x\<close> (\<open>Fin 0\<close> is the
  positive zero) and \<open>NegZero\<close> is \<^verbatim>\<open>-0.0\<close>. The values that \<^verbatim>\<open>json.load\<close>,
  \<^verbatim>\<open>float\<close> and the arithmetic below produce are doubles; \<^verbatim>\<open>json.load\<close> reads the
  literals \<^verbatim>\<open>NaN\<close> and \<^verbatim>\<open>Infinity\<close>, and a number such as \<^verbatim>\<open>1e400\<close> as infinity.
\<close>

datatype pyfloat = Fin real | NegZero | PInf | NInf | NaN

text \<open>Rounding to the nearest integer, a tie to the even one.\<close>

definition round_half_even :: "real \<Rightarrow> int" where
  "round_half_even y =
     (let f = \<lfloor>y\<rfloor>; d = y - of_int f
      in if d < 1/2 then f else if d > 1/2 then f + 1 else if even f then f else f + 1)"

text \<open>
  The double nearest to a magnitude \<open>a \<ge> 0\<close>, a tie to the one with the even
  significand: below \<open>2\<^sup>-\<^sup>1\<^sup>0\<^sup>2\<^sup>2\<close> the doubles are the multiples of
  \<open>2\<^sup>-\<^sup>1\<^sup>0\<^sup>7\<^sup>4\<close>, and from \<open>2\<^sup>e\<close> to \<open>2\<^sup>e\<^sup>+\<^sup>1\<close> they are the multiples of
  \<open>2\<^sup>e\<^sup>-\<^sup>5\<^sup>2\<close>. \<open>None\<close> is the overflow: the rounded magnitude is \<open>2\<^sup>1\<^sup>0\<^sup>2\<^sup>4\<close> or more.
\<close>

definition nearest_double :: "real \<Rightarrow> real option" where
  "nearest_double a =
     (if a = 0 then Some 0
      else let e = max \<lfloor>log 2 a\<rfloor> (- 1022);
               ulp = 2 powr (of_int e - 52);
               y = of_int (round_half_even (a / ulp)) * ulp
           in if 2 ^ 1024 \<le> y then None else Some y)"

text \<open>The float of a sign and a magnitude: an overflow gives the infinity of that
  sign, an underflow the zero of that sign.\<close>

definition float_of :: "bool \<Rightarrow> real \<Rightarrow> pyfloat" where
  "float_of negative a =
     (case nearest_double a of
        None \<Rightarrow> if negative then NInf else PInf
      | Some y \<Rightarrow> if negative then (if y = 0 then NegZero else Fin (- y)) else Fin y)"

fun sign_bit :: "pyfloat \<Rightarrow> bool" where
  "sign_bit (Fin x) = (x < 0)"
| "sign_bit NegZero = True"
| "sign_bit PInf = False"
| "sign_bit NInf = True"
| "sign_bit NaN = False"

fun float_value :: "pyfloat \<Rightarrow> real" where
  "float_value (Fin x) = x"
| "float_value _ = 0"

fun is_finite :: "pyfloat \<Rightarrow> bool" where
  "is_finite (Fin x) = True"
| "is_finite NegZero = True"
| "is_finite _ = False"

text \<open>The product and the sum of two floats.\<close>

definition float_mul :: "pyfloat \<Rightarrow> pyfloat \<Rightarrow> pyfloat" where
  "float_mul a b =
     (if a = NaN \<or> b = NaN then NaN
      else if is_finite a \<and> is_finite b
        then float_of (sign_bit a \<noteq> sign_bit b) (\<bar>float_value a\<bar> * \<bar>float_value b\<bar>)
      else if (is_finite a \<and> float_value a = 0) \<or> (is_finite b \<and> float_value b = 0) then NaN
      else if sign_bit a \<noteq> sign_bit b then NInf else PInf)"

definition float_add :: "pyfloat \<Rightarrow> pyfloat \<Rightarrow> pyfloat" where
  "float_add a b =
     (if a = NaN \<or> b = NaN then NaN
      else if is_finite a \<and> is_finite b
        then (let s = float_value a + float_value b
              in if s = 0 then (if a = NegZero \<and> b = NegZero then NegZero else Fin 0)
                 else float_of (s < 0) \<bar>s\<bar>)
      else if is_finite a then b
      else if is_finite b then a
      else if a = b then a else NaN)"

text \<open>The conversion of an integer to a float, as in \<^verbatim>\<open>i * x\<close> for a float \<open>x\<close>;
  \<open>None\<close> is \<^verbatim>\<open>OverflowError\<close> (int too large to convert to float).\<close>

definition float_of_int :: "int \<Rightarrow> pyfloat option" where
  "float_of_int i =
     (case nearest_double (of_int \<bar>i\<bar>) of
        None \<Rightarrow> None
      | Some y \<Rightarrow> Some (Fin (if i < 0 then - y else y)))"

text \<open>\<^verbatim>\<open>round(x, n)\<close> on a float: the exact value of \<open>x\<close> is rounded to \<open>n\<close> decimals,
  a tie to the even digit, and the double nearest to that decimal is returned with the
  sign of \<open>x\<close>; an infinity and NaN are returned as they are. (For \<open>n = 2\<close> the result of
  rounding a double cannot overflow: a double beyond \<open>2\<^sup>5\<^sup>3\<close> is an integer.)\<close>

definition py_round :: "pyfloat \<Rightarrow> nat \<Rightarrow> pyfloat" where
  "py_round x n =
     (case x of
        Fin v \<Rightarrow> float_of (v < 0) (of_int (round_half_even (\<bar>v\<bar> * 10 ^ n)) / 10 ^ n)
      | _ \<Rightarrow> x)"

text \<open>\<^verbatim>\<open>x >= 0\<close> on a float: false for NaN.\<close>

fun float_nonneg :: "pyfloat \<Rightarrow> bool" where
  "float_nonneg (Fin x) = (0 \<le> x)"
| "float_nonneg NegZero = True"
| "float_nonneg PInf = True"
| "float_nonneg NInf = False"
| "float_nonneg NaN = False"

section \<open>JSON values and the Python runtime\<close>

text \<open>
  The raw ERP records and the products are Python dictionaries obtained from
  \<^verbatim>\<open>json.load\<close>. A dictionary is modelled by the list of its items in insertion order
  (its keys are pairwise distinct in Python); \<^verbatim>\<open>d.get(k)\<close> is \<open>map_of d k\<close>.
  A string is modelled by the bytes of its UTF-8 encoding, a lone surrogate (which
  \<^verbatim>\<open>json.load\<close> accepts as \<^verbatim>\<open>\ud800\<close>) by the three bytes that the same scheme
  gives it (\<^verbatim>\<open>ED A0 80\<close> to \<^verbatim>\<open>ED BF BF\<close>); the order of strings is the order of their
  code points, which is the order of these byte sequences.
\<close>

datatype json =
    JNull
  | JBool bool
  | JInt int
  | JFloat pyfloat
  | JStr string
  | JArr "json list"
  | JObj "(string \<times> json) list"

type_synonym dict = "(string \<times> json) list"

text \<open>
  Built-in functions of the Python runtime and of its standard library that the code
  calls and that are not part of the repository: \<^verbatim>\<open>int(s)\<close> and \<^verbatim>\<open>float(s)\<close> on a string
  (\<open>None\<close> stands for \<^verbatim>\<open>ValueError\<close>), \<^verbatim>\<open>repr\<close> of a finite float as \<^verbatim>\<open>json.dumps\<close>
  prints it, \<^verbatim>\<open>str\<close> of a value that is not a string, \<^verbatim>\<open>hashlib.sha256(b).digest()\<close>
  read as a 256-bit number, and the limit \<^verbatim>\<open>sys.get_int_max_str_digits()\<close> on the
  number of digits of an integer that is converted to a string (4300 by default, 0 for
  no limit, as in the versions of Python that have none). Every function of the model
  takes the runtime as a parameter; the theorems hold for every runtime.
\<close>

record runtime =
  int_of_str :: "string \<Rightarrow> int option"
  float_of_str :: "string \<Rightarrow> pyfloat option"
  float_repr :: "pyfloat \<Rightarrow> string"
  str_of :: "json \<Rightarrow> string"
  sha256 :: "string \<Rightarrow> 256 word"
  max_str_digits :: nat

text \<open>Truthiness, as used by \<^verbatim>\<open>x or y\<close>: of the floats only the two zeros are
  false.\<close>

fun truthy :: "json \<Rightarrow> bool" where
  "truthy JNull = False"
| "truthy (JBool b) = b"
| "truthy (JInt i) = (i \<noteq> 0)"
| "truthy (JFloat x) = (x \<noteq> Fin 0 \<and> x \<noteq> NegZero)"
| "truthy (JStr s) = (s \<noteq> [])"
| "truthy (JArr xs) = (xs \<noteq> [])"
| "truthy (JObj kvs) = (kvs \<noteq> [])"

text \<open>\<^verbatim>\<open>d.get(k)\<close> (a missing key gives \<^verbatim>\<open>None\<close>), \<^verbatim>\<open>d.get(k, default)\<close> and
  \<^verbatim>\<open>a or b\<close>.\<close>

definition py_get :: "dict \<Rightarrow> string \<Rightarrow> json" where
  "py_get d k = (case map_of d k of None \<Rightarrow> JNull | Some v \<Rightarrow> v)"

definition py_get_default :: "dict \<Rightarrow> string \<Rightarrow> json \<Rightarrow> json" where
  "py_get_default d k dflt = (case map_of d k of None \<Rightarrow> dflt | Some v \<Rightarrow> v)"

definition py_or :: "json \<Rightarrow> json \<Rightarrow> json" where
  "py_or a b = (if truthy a then a else b)"

text \<open>An HTTP response as the client reads it: the status, the value of
  \<^verbatim>\<open>response.headers.get('Retry-After')\<close>, and the body.\<close>

record response =
  status_code :: int
  retry_after :: "string option"
  content :: string

text \<open>The exceptions: the built-in ones, the \<^verbatim>\<open>RuntimeError\<close> of the client with its
  message, \<^verbatim>\<open>requests.HTTPError\<close> with the response it carries, an exception raised
  by the HTTP session itself (a connection error, a timeout), and the two exceptions of
  the database layer (a violated constraint, a value the column cannot hold).\<close>

datatype pyerror =
    TypeError
  | ValueError
  | OverflowError
  | AttributeError
  | KeyError
  | UnicodeEncodeError
  | RuntimeError string
  | HTTPError response
  | RequestException string
  | IntegrityError
  | DataError

text \<open>\<^verbatim>\<open>int(value)\<close>: a float is truncated towards zero, NaN raises \<^verbatim>\<open>ValueError\<close>
  and an infinity \<^verbatim>\<open>OverflowError\<close>; \<^verbatim>\<open>None\<close>, a list and a dictionary raise
  \<^verbatim>\<open>TypeError\<close>; a string that is not an integer literal raises \<^verbatim>\<open>ValueError\<close>.\<close>

fun py_int :: "runtime \<Rightarrow> json \<Rightarrow> pyerror + int" where
  "py_int R JNull = Inl TypeError"
| "py_int R (JBool b) = Inr (if b then 1 else 0)"
| "py_int R (JInt i) = Inr i"
| "py_int R (JFloat (Fin x)) = Inr (if x \<ge> 0 then \<lfloor>x\<rfloor> else \<lceil>x\<rceil>)"
| "py_int R (JFloat NegZero) = Inr 0"
| "py_int R (JFloat PInf) = Inl OverflowError"
| "py_int R (JFloat NInf) = Inl OverflowError"
| "py_int R (JFloat NaN) = Inl ValueError"
| "py_int R (JStr s) = (case int_of_str R s of None \<Rightarrow> Inl ValueError | Some i \<Rightarrow> Inr i)"
| "py_int R (JArr xs) = Inl TypeError"
| "py_int R (JObj kvs) = Inl TypeError"

text \<open>\<^verbatim>\<open>value < 0\<close>: numbers are compared exactly (\<^verbatim>\<open>bool\<close> is a subclass of
  \<^verbatim>\<open>int\<close>, NaN is not less than anything), any other value raises \<^verbatim>\<open>TypeError\<close>.\<close>

fun py_lt_zero :: "json \<Rightarrow> pyerror + bool" where
  "py_lt_zero (JBool b) = Inr False"
| "py_lt_zero (JInt i) = Inr (i < 0)"
| "py_lt_zero (JFloat (Fin x)) = Inr (x < 0)"
| "py_lt_zero (JFloat NInf) = Inr True"
| "py_lt_zero (JFloat x) = Inr False"
| "py_lt_zero v = Inl TypeError"

text \<open>\<^verbatim>\<open>value * x\<close> for a float \<open>x\<close>: an integer is converted to a float first, which
  raises \<^verbatim>\<open>OverflowError\<close> when it is too large; a value that is not a number raises
  \<^verbatim>\<open>TypeError\<close>.\<close>

fun py_times :: "json \<Rightarrow> pyfloat \<Rightarrow> pyerror + pyfloat" where
  "py_times (JBool b) x =
     (case float_of_int (if b then 1 else 0) of None \<Rightarrow> Inl OverflowError | Some y \<Rightarrow> Inr (float_mul y x))"
| "py_times (JInt i) x =
     (case float_of_int i of None \<Rightarrow> Inl OverflowError | Some y \<Rightarrow> Inr (float_mul y x))"
| "py_times (JFloat y) x = Inr (float_mul y x)"
| "py_times v x = Inl TypeError"

section \<open>The transformer (transformer.py)\<close>

text \<open>The float literal \<^verbatim>\<open>0.21\<close>, and \<^verbatim>\<open>round(price_excl * (1 + VAT_RATE), 2)\<close>; the
  integer 1 is the float \<open>Fin 1\<close>.\<close>

definition VAT_RATE :: pyfloat where
  "VAT_RATE = float_of False (21 / 100)"

definition price_with_vat :: "json \<Rightarrow> pyerror + pyfloat" where
  "price_with_vat price_excl =
     (case py_times price_excl (float_add (Fin 1) VAT_RATE) of
        Inl e \<Rightarrow> Inl e
      | Inr product \<Rightarrow> Inr (py_round product 2))"

text \<open>Keys of a Python dictionary: numbers that are equal are the same key
  (\<^verbatim>\<open>1 == 1.0 == True\<close>, \<^verbatim>\<open>0.0 == -0.0\<close>); every NaN that \<^verbatim>\<open>json.load\<close> returns is the
  same float object and so one key; a list or a dictionary is unhashable (\<open>None\<close>).\<close>

datatype pykey = KNone | KNum real | KInf bool | KNaN | KStr string

fun py_key :: "json \<Rightarrow> pykey option" where
  "py_key JNull = Some KNone"
| "py_key (JBool b) = Some (KNum (if b then 1 else 0))"
| "py_key (JInt i) = Some (KNum (of_int i))"
| "py_key (JFloat (Fin x)) = Some (KNum x)"
| "py_key (JFloat NegZero) = Some (KNum 0)"
| "py_key (JFloat PInf) = Some (KInf False)"
| "py_key (JFloat NInf) = Some (KInf True)"
| "py_key (JFloat NaN) = Some KNaN"
| "py_key (JStr s) = Some (KStr s)"
| "py_key (JArr xs) = None"
| "py_key (JObj kvs) = None"

text \<open>\<^verbatim>\<open>item.get('id')\<close> as a dictionary key; a record without \<^verbatim>\<open>id\<close> gives \<^verbatim>\<open>None\<close>.\<close>

definition record_key :: "dict \<Rightarrow> pykey option" where
  "record_key item = py_key (py_get item ''id'')"

text \<open>The loop of \<open>load_erp_data\<close> over \<^verbatim>\<open>raw_list\<close>; \<open>seen\<close> is the dictionary
  \<^verbatim>\<open>seen_skus\<close> (insertion-ordered). Testing an unhashable key raises \<^verbatim>\<open>TypeError\<close>.\<close>

fun dedupe_loop :: "(pykey \<times> dict) list \<Rightarrow> dict list \<Rightarrow> pyerror + (pykey \<times> dict) list" where
  "dedupe_loop seen [] = Inr seen"
| "dedupe_loop seen (item # rest) =
     (case record_key item of
        None \<Rightarrow> Inl TypeError
      | Some sku \<Rightarrow>
          if sku \<in> fst ` set seen then dedupe_loop seen rest
          else dedupe_loop (seen @ [(sku, item)]) rest)"

text \<open>\<open>load_erp_data\<close> on the parsed content \<^verbatim>\<open>raw_list\<close> of the file.\<close>

definition load_erp_data :: "dict list \<Rightarrow> pyerror + dict list" where
  "load_erp_data raw_list =
     (case dedupe_loop [] raw_list of Inl e \<Rightarrow> Inl e | Inr seen \<Rightarrow> Inr (map snd seen))"

text \<open>\<open>_parse_stock_value\<close>: \<^verbatim>\<open>TypeError\<close> and \<^verbatim>\<open>ValueError\<close> are caught and give 0;
  the \<^verbatim>\<open>OverflowError\<close> of an infinite quantity is not caught.\<close>

definition parse_stock_value :: "runtime \<Rightarrow> json \<Rightarrow> pyerror + int" where
  "parse_stock_value R v =
     (case py_int R v of
        Inr i \<Rightarrow> Inr i
      | Inl e \<Rightarrow> if e = TypeError \<or> e = ValueError then Inr 0 else Inl e)"

text \<open>\<^verbatim>\<open>sum(_parse_stock_value(v) for v in stocks.values())\<close>.\<close>

fun sum_stock :: "runtime \<Rightarrow> int \<Rightarrow> json list \<Rightarrow> pyerror + int" where
  "sum_stock R acc [] = Inr acc"
| "sum_stock R acc (v # vs) =
     (case parse_stock_value R v of Inl e \<Rightarrow> Inl e | Inr i \<Rightarrow> sum_stock R (acc + i) vs)"

text \<open>\<^verbatim>\<open>v.values()\<close> and \<^verbatim>\<open>v.get(k)\<close> on a value: only a dictionary has these methods,
  anything else raises \<^verbatim>\<open>AttributeError\<close>.\<close>

definition py_values :: "json \<Rightarrow> pyerror + json list" where
  "py_values v = (case v of JObj kvs \<Rightarrow> Inr (map snd kvs) | _ \<Rightarrow> Inl AttributeError)"

definition py_method_get :: "json \<Rightarrow> string \<Rightarrow> pyerror + json" where
  "py_method_get v k = (case v of JObj kvs \<Rightarrow> Inr (py_get kvs k) | _ \<Rightarrow> Inl AttributeError)"

text \<open>
  \<open>transform_product\<close>: \<open>Inr None\<close> is the record dropped (\<^verbatim>\<open>return None\<close>), \<open>Inl\<close> an
  exception that escapes, in the order in which the statements of the function raise.
\<close>

definition transform_product :: "runtime \<Rightarrow> dict \<Rightarrow> pyerror + dict option" where
  "transform_product R raw =
     (let sku = py_get_default raw ''id'' (JStr ''<unknown>'');
          price_excl = py_get raw ''price_vat_excl''
      in if price_excl = JNull then Inr None
         else
           (case py_lt_zero price_excl of
              Inl e \<Rightarrow> Inl e
            | Inr negative \<Rightarrow>
                if negative then Inr None
                else
                  (let stocks = py_or (py_get raw ''stocks'') (JObj []) in
                   case py_values stocks of
                     Inl e \<Rightarrow> Inl e
                   | Inr quantities \<Rightarrow>
                       (case sum_stock R 0 quantities of
                          Inl e \<Rightarrow> Inl e
                        | Inr total_stock \<Rightarrow>
                            (let attributes = py_or (py_get raw ''attributes'') (JObj []) in
                             case py_method_get attributes ''color'' of
                               Inl e \<Rightarrow> Inl e
                             | Inr c \<Rightarrow>
                                 (let color = py_or c (JStr ''N/A'') in
                                  case price_with_vat price_excl of
                                    Inl e \<Rightarrow> Inl e
                                  | Inr price \<Rightarrow>
                                      Inr (Some
                                        [(''sku'', sku),
                                         (''title'', py_get_default raw ''title'' (JStr [])),
                                         (''price'', JFloat price),
                                         (''stock'', JInt total_stock),
                                         (''color'', color)])))))))"

text \<open>The loop of \<open>load_and_transform\<close>; \<open>result\<close> is the list being appended to.\<close>

fun transform_loop :: "runtime \<Rightarrow> dict list \<Rightarrow> dict list \<Rightarrow> pyerror + dict list" where
  "transform_loop R result [] = Inr result"
| "transform_loop R result (raw # raws) =
     (case transform_product R raw of
        Inl e \<Rightarrow> Inl e
      | Inr None \<Rightarrow> transform_loop R result raws
      | Inr (Some transformed) \<Rightarrow> transform_loop R (result @ [transformed]) raws)"

definition load_and_transform :: "runtime \<Rightarrow> dict list \<Rightarrow> pyerror + dict list" where
  "load_and_transform R raw_list =
     (case load_erp_data raw_list of
        Inl e \<Rightarrow> Inl e
      | Inr raw_products \<Rightarrow> transform_loop R [] raw_products)"

subsection \<open>The content hash\<close>

definition hex_digit :: "nat \<Rightarrow> char" where
  "hex_digit n = ''0123456789abcdef'' ! (n mod 16)"

function decimal :: "nat \<Rightarrow> string" where
  "decimal n = (if n < 10 then [hex_digit n] else decimal (n div 10) @ [hex_digit (n mod 10)])"
  by pat_completeness auto
termination
  by (relation "measure id") auto

declare decimal.simps [simp del]

definition show_int :: "int \<Rightarrow> string" where
  "show_int i = (if i < 0 then CHR ''-'' # decimal (nat (- i)) else decimal (nat i))"

text \<open>The integers that \<^verbatim>\<open>json.dumps\<close> cannot print: the conversion of an integer
  with more digits than the limit of the runtime raises \<^verbatim>\<open>ValueError\<close>. (\<^verbatim>\<open>json.load\<close>
  does not read such an integer, but a sum of quantities can be one.)\<close>

fun unprintable :: "runtime \<Rightarrow> json \<Rightarrow> bool" where
  "unprintable R (JInt i) = (max_str_digits R \<noteq> 0 \<and> max_str_digits R < length (decimal (nat \<bar>i\<bar>)))"
| "unprintable R (JArr xs) = (\<exists>x \<in> set xs. unprintable R x)"
| "unprintable R (JObj kvs) = (\<exists>v \<in> set (map snd kvs). unprintable R v)"
| "unprintable R v = False"

text \<open>The string encoder of \<^verbatim>\<open>json.dumps\<close> with \<^verbatim>\<open>ensure_ascii=False\<close>: the quote, the
  backslash and the control characters below \<^verbatim>\<open>0x20\<close> are escaped, every other byte is
  copied.\<close>

definition escape_char :: "char \<Rightarrow> string" where
  "escape_char c =
     (let n = (of_char c :: nat) in
      if n = 0x22 then [CHR 0x5C, CHR 0x22]
      else if n = 0x5C then [CHR 0x5C, CHR 0x5C]
      else if n = 0x0A then [CHR 0x5C, CHR ''n'']
      else if n = 0x0D then [CHR 0x5C, CHR ''r'']
      else if n = 0x09 then [CHR 0x5C, CHR ''t'']
      else if n = 0x08 then [CHR 0x5C, CHR ''b'']
      else if n = 0x0C then [CHR 0x5C, CHR ''f'']
      else if n < 0x20 then [CHR 0x5C, CHR ''u'', CHR ''0'', CHR ''0'', hex_digit (n div 16), hex_digit n]
      else [c])"

definition json_str :: "string \<Rightarrow> string" where
  "json_str s = CHR 0x22 # concat (map escape_char s) @ [CHR 0x22]"

fun join :: "string \<Rightarrow> string list \<Rightarrow> string" where
  "join sep [] = []"
| "join sep [x] = x"
| "join sep (x # y # ys) = x @ sep @ join sep (y # ys)"

text \<open>\<^verbatim>\<open>json.dumps(v, sort_keys=True, ensure_ascii=False)\<close> with the default separators,
  on a value it can print. The items of a dictionary are written in the order of their
  keys; NaN and the infinities are written as \<^verbatim>\<open>json.dumps\<close> writes them by
  default.\<close>

fun dumps :: "runtime \<Rightarrow> json \<Rightarrow> string" where
  "dumps R JNull = ''null''"
| "dumps R (JBool b) = (if b then ''true'' else ''false'')"
| "dumps R (JInt i) = show_int i"
| "dumps R (JFloat NaN) = ''NaN''"
| "dumps R (JFloat PInf) = ''Infinity''"
| "dumps R (JFloat NInf) = ''-Infinity''"
| "dumps R (JFloat x) = float_repr R x"
| "dumps R (JStr s) = json_str s"
| "dumps R (JArr xs) = ''['' @ join '', '' (map (dumps R) xs) @ '']''"
| "dumps R (JObj kvs) =
     ''{'' @ join '', '' (map (\<lambda>kv. json_str (fst kv) @ '': '' @ dumps R (snd kv)) (sort_key fst kvs)) @ ''}''"

text \<open>\<^verbatim>\<open>s.encode('utf-8')\<close> raises \<^verbatim>\<open>UnicodeEncodeError\<close> on a string with a lone
  surrogate: in the bytes of the string, a byte \<^verbatim>\<open>ED\<close> followed by a byte from
  \<^verbatim>\<open>A0\<close>. On any other string it is the identity of the model.\<close>

fun has_surrogate :: "string \<Rightarrow> bool" where
  "has_surrogate (c # d # cs) =
     (((of_char c :: nat) = 0xED \<and> 0xA0 \<le> (of_char d :: nat)) \<or> has_surrogate (d # cs))"
| "has_surrogate cs = False"

text \<open>\<^verbatim>\<open>.hexdigest()\<close>: the 32 bytes of the digest, two lower-case hexadecimal digits
  each, most significant first.\<close>

definition hexdigest :: "256 word \<Rightarrow> string" where
  "hexdigest w = map (\<lambda>i. hex_digit (unat w div 16 ^ (63 - i))) [0..<64]"

definition compute_hash :: "runtime \<Rightarrow> dict \<Rightarrow> pyerror + string" where
  "compute_hash R product =
     (if unprintable R (JObj product) then Inl ValueError
      else
        (let serialized = dumps R (JObj product)
         in if has_surrogate serialized then Inl UnicodeEncodeError
            else Inr (hexdigest (sha256 R serialized))))"

section \<open>The client (eshop\_client.py, class EshopClient)\<close>

definition MAX_RETRIES :: nat where
  "MAX_RETRIES = 3"

definition RATE_LIMIT :: int where
  "RATE_LIMIT = 5"

text \<open>
  The environment of a run. The \<open>n\<close>-th call of \<^verbatim>\<open>session.request\<close> (counted from 0
  over the whole run) is answered by \<open>reply E n\<close>: a response, or an exception raised by
  \<^verbatim>\<open>session.request\<close> itself. \<open>clock E n\<close> are the two readings of \<^verbatim>\<open>time.monotonic()\<close>
  for the call of \<open>acquire\<close> that precedes that request (the clock does not go
  backwards, so the wait of the limiter is at most 1 and its sleep returns).
  \<open>db_refuses E k\<close> tells whether
  the database refuses to insert a row whose \<open>sku\<close> is the text \<open>k\<close> (as some engines do
  for a text longer than the 50 characters of the column).
\<close>

datatype reply = Responds response | Fails string

record env =
  clock :: "nat \<Rightarrow> real \<times> real"
  reply :: "nat \<Rightarrow> reply"
  db_refuses :: "string \<Rightarrow> bool"

record request =
  http_method :: string
  url :: string
  x_api_key :: string
  json_body :: dict

text \<open>The calls of \<^verbatim>\<open>time.sleep\<close> that returned, in order, with their argument: the
  one in \<open>acquire\<close> and the one in the retry loop.\<close>

datatype nap = LimiterSleep real | RetrySleep pyfloat

text \<open>
  What \<^verbatim>\<open>time.sleep(d)\<close> raises for a float \<open>d\<close>, if anything: \<^verbatim>\<open>ValueError\<close> for NaN;
  otherwise the duration is converted to nanoseconds (the float product \<open>d * 1e9\<close>) and
  \<^verbatim>\<open>OverflowError\<close> is raised when that does not fit a signed 64-bit integer, and
  \<^verbatim>\<open>ValueError\<close> when it is negative.
\<close>

definition sleep_error :: "pyfloat \<Rightarrow> pyerror option" where
  "sleep_error d =
     (if d = NaN then Some ValueError
      else case float_mul d (Fin (10 ^ 9)) of
             Fin ns \<Rightarrow> if ns < - (2 ^ 63) \<or> 2 ^ 63 \<le> ns then Some OverflowError
                       else if ns < 0 then Some ValueError else None
           | NegZero \<Rightarrow> None
           | _ \<Rightarrow> Some OverflowError)"

text \<open>A \<open>ProductSyncState\<close> row. The field \<^verbatim>\<open>last_synced_at\<close> is set by the ORM on every
  save and never read by the code; it is left out.\<close>

record sync_state =
  content_hash :: string
  synced_as_new :: bool

text \<open>The three log lines of the task, one per product processed.\<close>

datatype diag =
    is_unchanged: Unchanged (diag_sku: json)
  | is_synced: Synced (diag_sku: json) bool
  | is_failed: SyncFailed (diag_sku: json) pyerror

text \<open>
  What a run acts on: the calls of \<^verbatim>\<open>session.request\<close> so far, the sleeps so far, the
  table of \<open>ProductSyncState\<close> rows, and the log. The column \<^verbatim>\<open>sku\<close> is a unique
  \<^verbatim>\<open>CharField\<close>, so the table is a map from the text of a sku to the rest of the row.
\<close>

record world =
  requests :: "request list"
  naps :: "nap list"
  db :: "string \<Rightarrow> sync_state option"
  journal :: "diag list"

record settings =
  ESHOP_API_BASE_URL :: string
  ESHOP_API_KEY :: string

record client =
  base_url :: string
  api_key :: string
  limiter :: rate_limiter

definition rstrip_slash :: "string \<Rightarrow> string" where
  "rstrip_slash s = rev (dropWhile (\<lambda>c. c = CHR ''/'') (rev s))"

definition EshopClient :: "settings \<Rightarrow> client" where
  "EshopClient cfg =
     \<lparr>base_url = rstrip_slash (ESHOP_API_BASE_URL cfg), api_key = ESHOP_API_KEY cfg,
      limiter = RateLimiter RATE_LIMIT\<rparr>"

definition parse_retry_after :: "runtime \<Rightarrow> response \<Rightarrow> pyfloat option" where
  "parse_retry_after R resp =
     (case retry_after resp of None \<Rightarrow> None | Some header \<Rightarrow> float_of_str R header)"

definition rate_limit_message :: "string \<Rightarrow> string \<Rightarrow> string" where
  "rate_limit_message method u =
     ''API request '' @ method @ '' '' @ u @ '' failed after '' @ decimal MAX_RETRIES
       @ '' retries due to rate limiting.''"

text \<open>
  The loop of \<open>_request_with_retry\<close>; the first numeric argument is the number of
  attempts left, \<open>backoff\<close> the current value of the variable of that name (1.0, 2.0,
  4.0: floats that the doubling computes exactly). On a 429 response the exception of
  \<^verbatim>\<open>time.sleep(wait)\<close>, if it raises, ends the call. Leaving the loop with no attempt
  left raises the \<^verbatim>\<open>RuntimeError\<close>. \<^verbatim>\<open>raise_for_status\<close> raises for a status from 400
  to 599.
\<close>

fun retry_loop ::
  "runtime \<Rightarrow> env \<Rightarrow> string \<Rightarrow> string \<Rightarrow> dict \<Rightarrow> nat \<Rightarrow> real \<Rightarrow> client \<times> world
     \<Rightarrow> (pyerror + response) \<times> client \<times> world" where
  "retry_loop R E method u body 0 backoff (c, w) =
     (Inl (RuntimeError (rate_limit_message method u)), c, w)"
| "retry_loop R E method u body (Suc left) backoff (c, w) =
     (let n = length (requests w);
          (rl, slept) = acquire (limiter c) (fst (clock E n)) (snd (clock E n));
          c1 = c\<lparr>limiter := rl\<rparr>;
          w1 = w\<lparr>naps := naps w @ (case slept of None \<Rightarrow> [] | Some d \<Rightarrow> [LimiterSleep d]),
                 requests := requests w
                   @ [\<lparr>http_method = method, url = u, x_api_key = api_key c, json_body = body\<rparr>]\<rparr>
      in case reply E n of
           Fails e \<Rightarrow> (Inl (RequestException e), c1, w1)
         | Responds r \<Rightarrow>
             if status_code r = 429 then
               (let wait = (case parse_retry_after R r of Some ra \<Rightarrow> ra | None \<Rightarrow> Fin backoff)
                in case sleep_error wait of
                     Some e \<Rightarrow> (Inl e, c1, w1)
                   | None \<Rightarrow>
                       retry_loop R E method u body left (backoff * 2)
                         (c1, w1\<lparr>naps := naps w1 @ [RetrySleep wait]\<rparr>))
             else if 400 \<le> status_code r \<and> status_code r < 600 then (Inl (HTTPError r), c1, w1)
             else (Inr r, c1, w1))"

definition request_with_retry ::
  "runtime \<Rightarrow> env \<Rightarrow> client \<Rightarrow> string \<Rightarrow> string \<Rightarrow> dict \<Rightarrow> world
     \<Rightarrow> (pyerror + response) \<times> client \<times> world" where
  "request_with_retry R E c method u body w = retry_loop R E method u body MAX_RETRIES 1 (c, w)"

text \<open>\<^verbatim>\<open>str(v)\<close>, as an f-string and a \<^verbatim>\<open>CharField\<close> apply it: a string as it is,
  anything else through \<^verbatim>\<open>str\<close>.\<close>

definition py_format :: "runtime \<Rightarrow> json \<Rightarrow> string" where
  "py_format R v = (case v of JStr s \<Rightarrow> s | _ \<Rightarrow> str_of R v)"

definition send_product ::
  "runtime \<Rightarrow> env \<Rightarrow> client \<Rightarrow> dict \<Rightarrow> bool \<Rightarrow> world \<Rightarrow> (pyerror + response) \<times> client \<times> world" where
  "send_product R E c product is_new w =
     (case map_of product ''sku'' of
        None \<Rightarrow> (Inl KeyError, c, w)
      | Some sku \<Rightarrow>
          if is_new then request_with_retry R E c ''POST'' (base_url c @ ''/products/'') product w
          else request_with_retry R E c ''PATCH''
                 (base_url c @ ''/products/'' @ py_format R sku @ ''/'') product w)"

section \<open>The synchronisation task (tasks.py)\<close>

record summary =
  sent :: int
  skipped :: int
  errors :: int

text \<open>
  The text under which the \<^verbatim>\<open>CharField\<close> \<^verbatim>\<open>sku\<close> files a value: \<^verbatim>\<open>str(value)\<close>, and
  nothing for \<^verbatim>\<open>None\<close> (no row has a null sku: the column is not nullable).
  \<^verbatim>\<open>objects.get(sku=sku)\<close> returns the row of that text; \<open>None\<close> is \<^verbatim>\<open>DoesNotExist\<close>.
\<close>

definition row_key :: "runtime \<Rightarrow> json \<Rightarrow> string option" where
  "row_key R sku = (case sku of JNull \<Rightarrow> None | _ \<Rightarrow> Some (py_format R sku))"

definition objects_get :: "runtime \<Rightarrow> world \<Rightarrow> json \<Rightarrow> sync_state option" where
  "objects_get R w sku = (case row_key R sku of None \<Rightarrow> None | Some k \<Rightarrow> db w k)"

text \<open>
  \<^verbatim>\<open>state.save()\<close>: \<open>state\<close> is the row found by \<open>objects_get\<close>, if any. An existing
  row is updated. A new row is inserted, which raises \<^verbatim>\<open>IntegrityError\<close> for a null sku
  and \<^verbatim>\<open>DataError\<close> for a sku the database refuses.
\<close>

definition save ::
  "runtime \<Rightarrow> env \<Rightarrow> json \<Rightarrow> sync_state option \<Rightarrow> sync_state \<Rightarrow> world \<Rightarrow> pyerror + world" where
  "save R E sku state row w =
     (case row_key R sku of
        None \<Rightarrow> Inl IntegrityError
      | Some k \<Rightarrow>
          if state = None \<and> db_refuses E k then Inl DataError
          else Inr (w\<lparr>db := (db w)(k \<mapsto> row)\<rparr>))"

text \<open>
  One iteration of the loop of \<open>sync_products_task\<close>. \<^verbatim>\<open>product['sku']\<close> and
  \<open>compute_hash\<close> are evaluated before the \<^verbatim>\<open>try\<close>, so an exception there escapes
  (\<open>Inl\<close>); an exception of the client or of \<^verbatim>\<open>save\<close> is caught and counted. The
  database is taken to be reachable.
\<close>

definition sync_one ::
  "runtime \<Rightarrow> env \<Rightarrow> dict \<Rightarrow> client \<times> world \<times> summary \<Rightarrow> pyerror + client \<times> world \<times> summary" where
  "sync_one R E product st =
     (case st of (c, w, s) \<Rightarrow>
      case map_of product ''sku'' of
        None \<Rightarrow> Inl KeyError
      | Some sku \<Rightarrow>
          (case compute_hash R product of
             Inl e \<Rightarrow> Inl e
           | Inr new_hash \<Rightarrow>
               (let state = objects_get R w sku;
                    is_new = (state = None)
                in if (case state of None \<Rightarrow> False | Some row \<Rightarrow> content_hash row = new_hash)
                   then Inr (c, w\<lparr>journal := journal w @ [Unchanged sku]\<rparr>, s\<lparr>skipped := skipped s + 1\<rparr>)
                   else
                     (case send_product R E c product is_new w of
                        (Inl exc, c1, w1) \<Rightarrow>
                          Inr (c1, w1\<lparr>journal := journal w1 @ [SyncFailed sku exc]\<rparr>,
                               s\<lparr>errors := errors s + 1\<rparr>)
                      | (Inr resp, c1, w1) \<Rightarrow>
                          (case save R E sku state \<lparr>content_hash = new_hash, synced_as_new = is_new\<rparr> w1 of
                             Inl exc \<Rightarrow>
                               Inr (c1, w1\<lparr>journal := journal w1 @ [SyncFailed sku exc]\<rparr>,
                                    s\<lparr>errors := errors s + 1\<rparr>)
                           | Inr w2 \<Rightarrow>
                               Inr (c1, w2\<lparr>journal := journal w2 @ [Synced sku is_new]\<rparr>,
                                    s\<lparr>sent := sent s + 1\<rparr>))))))"

fun sync_loop ::
  "runtime \<Rightarrow> env \<Rightarrow> dict list \<Rightarrow> client \<times> world \<times> summary \<Rightarrow> pyerror + client \<times> world \<times> summary" where
  "sync_loop R E [] st = Inr st"
| "sync_loop R E (product # products) st =
     (case sync_one R E product st of Inl e \<Rightarrow> Inl e | Inr st1 \<Rightarrow> sync_loop R E products st1)"

text \<open>\<open>sync_products_task\<close> on the parsed content of the ERP file: the summary it
  returns and the world it leaves, or the exception that escapes.\<close>

definition sync_products_task ::
  "runtime \<Rightarrow> env \<Rightarrow> settings \<Rightarrow> dict list \<Rightarrow> world \<Rightarrow> pyerror + summary \<times> world" where
  "sync_products_task R E cfg raw_list w =
     (case load_and_transform R raw_list of
        Inl e \<Rightarrow> Inl e
      | Inr products \<Rightarrow>
          (case sync_loop R E products (EshopClient cfg, w, \<lparr>sent = 0, skipped = 0, errors = 0\<rparr>) of
             Inl e \<Rightarrow> Inl e
           | Inr (c, w1, s) \<Rightarrow> Inr (s, w1)))"

section \<open>Auxiliary definitions for the statements\<close>

text \<open>The arguments of the \<^verbatim>\<open>time.sleep(wait)\<close> calls of the retry loop that returned,
  in order.\<close>

fun retry_waits :: "nap list \<Rightarrow> pyfloat list" where
  "retry_waits [] = []"
| "retry_waits (LimiterSleep d # ns) = retry_waits ns"
| "retry_waits (RetrySleep d # ns) = d # retry_waits ns"

text \<open>The wait chosen on a 429 response:
  \<^verbatim>\<open>wait = retry_after if retry_after is not None else backoff\<close>.\<close>

definition wait_of :: "runtime \<Rightarrow> response \<Rightarrow> real \<Rightarrow> pyfloat" where
  "wait_of R r backoff = (case parse_retry_after R r of Some ra \<Rightarrow> ra | None \<Rightarrow> Fin backoff)"

text \<open>The first two statements of an iteration of the retry loop: the limiter is
  acquired and the request is issued.\<close>

definition attempt :: "env \<Rightarrow> string \<Rightarrow> string \<Rightarrow> dict \<Rightarrow> client \<times> world \<Rightarrow> client \<times> world" where
  "attempt E method u body cw =
     (case cw of (c, w) \<Rightarrow>
      let n = length (requests w);
          (rl, slept) = acquire (limiter c) (fst (clock E n)) (snd (clock E n))
      in (c\<lparr>limiter := rl\<rparr>,
          w\<lparr>naps := naps w @ (case slept of None \<Rightarrow> [] | Some d \<Rightarrow> [LimiterSleep d]),
            requests := requests w
              @ [\<lparr>http_method = method, url = u, x_api_key = api_key c, json_body = body\<rparr>]\<rparr>))"

text \<open>The method and the URL \<open>send_product\<close> routes a product to.\<close>

definition route_method :: "bool \<Rightarrow> string" where
  "route_method is_new = (if is_new then ''POST'' else ''PATCH'')"

definition route_url :: "runtime \<Rightarrow> client \<Rightarrow> json \<Rightarrow> bool \<Rightarrow> string" where
  "route_url R c sku is_new =
     (if is_new then base_url c @ ''/products/''
      else base_url c @ ''/products/'' @ py_format R sku @ ''/'')"

text \<open>What a stock value counts for in the total: \<^verbatim>\<open>int(value)\<close>, and 0 when that
  raises.\<close>

definition quantity :: "runtime \<Rightarrow> json \<Rightarrow> int" where
  "quantity R v = (case py_int R v of Inr i \<Rightarrow> i | Inl e \<Rightarrow> 0)"

text \<open>The summary a run returns, if it returns.\<close>

definition summary_of :: "pyerror + summary \<times> world \<Rightarrow> summary option" where
  "summary_of r = (case r of Inl e \<Rightarrow> None | Inr (s, w) \<Rightarrow> Some s)"

text \<open>The world a run leaves; the world it started in if an exception escapes.\<close>

definition world_after :: "world \<Rightarrow> pyerror + summary \<times> world \<Rightarrow> world" where
  "world_after w r = (case r of Inl e \<Rightarrow> w | Inr (s, w1) \<Rightarrow> w1)"

subsection \<open>A runtime for the examples\<close>

text \<open>
  The closed examples below need a concrete runtime. This one reads plain decimal
  integer literals (and, as floats, also \<^verbatim>\<open>nan\<close> and \<^verbatim>\<open>inf\<close>), prints a float with at
  most two decimals the way Python does for such values, has the default limit of 4300
  digits, and uses a stand-in for SHA-256: the last 32 bytes of the message read as a
  big-endian number. The stand-in is not SHA-256; the examples only rely on two
  different messages of the example having different digests, as they have under
  SHA-256.
\<close>

fun digits_value :: "nat \<Rightarrow> string \<Rightarrow> nat option" where
  "digits_value acc [] = Some acc"
| "digits_value acc (c # cs) =
     (let n = (of_char c :: nat)
      in if 48 \<le> n \<and> n \<le> 57 then digits_value (acc * 10 + (n - 48)) cs else None)"

definition plain_int_of_str :: "string \<Rightarrow> int option" where
  "plain_int_of_str s =
     (case s of
        [] \<Rightarrow> None
      | c # cs \<Rightarrow>
          if c = CHR ''-'' then (if cs = [] then None else map_option (\<lambda>n. - int n) (digits_value 0 cs))
          else map_option int (digits_value 0 s))"

definition plain_float_of_str :: "string \<Rightarrow> pyfloat option" where
  "plain_float_of_str s =
     (if s = ''nan'' then Some NaN
      else if s = ''inf'' then Some PInf
      else case plain_int_of_str s of
             None \<Rightarrow> None
           | Some i \<Rightarrow> if i = 0 \<and> take 1 s = ''-'' then Some NegZero else float_of_int i)"

definition cents_repr :: "pyfloat \<Rightarrow> string" where
  "cents_repr x =
     (let cents = \<lfloor>float_value x * 100 + 1 / 2\<rfloor>; a = nat \<bar>cents\<bar>; frac = a mod 100
      in (if sign_bit x then ''-'' else []) @ decimal (a div 100) @ ''.''
           @ (if frac mod 10 = 0 then [hex_digit (frac div 10)]
              else [hex_digit (frac div 10), hex_digit (frac mod 10)]))"

definition plain_str :: "json \<Rightarrow> string" where
  "plain_str v =
     (case v of
        JInt i \<Rightarrow> show_int i
      | JNull \<Rightarrow> ''None''
      | JBool b \<Rightarrow> (if b then ''True'' else ''False'')
      | _ \<Rightarrow> [])"

definition tail_digest :: "string \<Rightarrow> 256 word" where
  "tail_digest s = word_of_nat (foldl (\<lambda>a c. a * 256 + of_char c) 0 (rev (take 32 (rev s))))"

definition example_runtime :: runtime where
  "example_runtime =
     \<lparr>int_of_str = plain_int_of_str,
      float_of_str = plain_float_of_str,
      float_repr = cents_repr,
      str_of = plain_str,
      sha256 = tail_digest,
      max_str_digits = 4300\<rparr>"

subsection \<open>Data of the examples\<close>

text \<open>The float \<^verbatim>\<open>1.21\<close>: the double nearest to \<open>121/100\<close>.\<close>

definition float_1_21 :: pyfloat where
  "float_1_21 = Fin (5449355549118300 / 2 ^ 52)"

definition example_settings :: settings where
  "example_settings = \<lparr>ESHOP_API_BASE_URL = ''https://api.fake-eshop.cz/v1/'', ESHOP_API_KEY = ''token''\<rparr>"

definition example_product :: dict where
  "example_product =
     [(''sku'', JStr ''SKU-001''), (''title'', JStr ''A''), (''price'', JFloat float_1_21),
      (''stock'', JInt 5), (''color'', JStr ''N/A'')]"

definition empty_world :: world where
  "empty_world = \<lparr>requests = [], naps = [], db = (\<lambda>k. None), journal = []\<rparr>"

text \<open>An environment that answers the requests with the given replies, in order (and
  fails every later request), all at time 0, with a database that refuses no row.\<close>

definition env_of :: "reply list \<Rightarrow> env" where
  "env_of replies =
     \<lparr>clock = (\<lambda>n. (0, 0)),
      reply = (\<lambda>n. if n < length replies then replies ! n else Fails ''connection refused''),
      db_refuses = (\<lambda>k. False)\<rparr>"

definition example_batch :: "dict list" where
  "example_batch =
     [[(''id'', JStr ''SKU-001''), (''title'', JStr ''A''), (''price_vat_excl'', JInt 1),
       (''stocks'', JObj [(''praha'', JInt 5)]), (''attributes'', JNull)],
      [(''id'', JStr ''SKU-BAD''), (''title'', JStr ''Bad''), (''price_vat_excl'', JNull)],
      [(''id'', JStr ''SKU-003''), (''title'', JStr ''B''), (''price_vat_excl'', JInt 1)]]"

definition example_product_1 :: dict where
  "example_product_1 =
     [(''sku'', JStr ''SKU-001''), (''title'', JStr ''A''), (''price'', JFloat float_1_21),
      (''stock'', JInt 5), (''color'', JStr ''N/A'')]"

definition example_product_3 :: dict where
  "example_product_3 =
     [(''sku'', JStr ''SKU-003''), (''title'', JStr ''B''), (''price'', JFloat float_1_21),
      (''stock'', JInt 0), (''color'', JStr ''N/A'')]"

text \<open>A batch whose first record has no \<^verbatim>\<open>id\<close> and whose second record has the id
  \<^verbatim>\<open><unknown>\<close>, and the two products it gives.\<close>

definition unknown_batch :: "dict list" where
  "unknown_batch =
     [[(''title'', JStr ''A''), (''price_vat_excl'', JInt 1)],
      [(''id'', JStr ''<unknown>''), (''title'', JStr ''B''), (''price_vat_excl'', JInt 1)]]"

definition unknown_product_a :: dict where
  "unknown_product_a =
     [(''sku'', JStr ''<unknown>''), (''title'', JStr ''A''), (''price'', JFloat float_1_21),
      (''stock'', JInt 0), (''color'', JStr ''N/A'')]"

definition unknown_product_b :: dict where
  "unknown_product_b =
     [(''sku'', JStr ''<unknown>''), (''title'', JStr ''B''), (''price'', JFloat float_1_21),
      (''stock'', JInt 0), (''color'', JStr ''N/A'')]"

text \<open>The digests of the products of the examples, and a world in which the first
  product of the example batch is already recorded with its digest.\<close>

definition example_hash_1 :: string where
  "example_hash_1 =
     hexdigest (tail_digest (dumps example_runtime (JObj example_product_1)))"

definition example_hash_3 :: string where
  "example_hash_3 =
     hexdigest (tail_digest (dumps example_runtime (JObj example_product_3)))"

definition unknown_hash_a :: string where
  "unknown_hash_a =
     hexdigest (tail_digest (dumps example_runtime (JObj unknown_product_a)))"

definition unknown_hash_b :: string where
  "unknown_hash_b =
     hexdigest (tail_digest (dumps example_runtime (JObj unknown_product_b)))"

definition synced_world :: world where
  "synced_world =
     empty_world\<lparr>db := (\<lambda>k. None)(''SKU-001'' \<mapsto>
       \<lparr>content_hash = example_hash_1, synced_as_new = True\<rparr>)\<rparr>"

definition too_many :: response where
  "too_many = \<lparr>status_code = 429, retry_after = None, content = []\<rparr>"

text \<open>A 429 response whose \<^verbatim>\<open>Retry-After\<close> header is \<^verbatim>\<open>-1\<close>, and one whose header is
  \<^verbatim>\<open>nan\<close>.\<close>

definition too_many_negative :: response where
  "too_many_negative = \<lparr>status_code = 429, retry_after = Some ''-1'', content = []\<rparr>"

definition too_many_nan :: response where
  "too_many_nan = \<lparr>status_code = 429, retry_after = Some ''nan'', content = []\<rparr>"

definition created :: response where
  "created = \<lparr>status_code = 201, retry_after = None, content = ''{}''\<rparr>"

definition server_error :: response where
  "server_error = \<lparr>status_code = 500, retry_after = None, content = ''fail''\<rparr>"

section \<open>Properties of the rate limiter\<close>



















section \<open>Properties of float arithmetic\<close>

lemma round_half_even_nonneg: "0 \<le> y \<Longrightarrow> 0 \<le> round_half_even y"
  by (auto simp add: round_half_even_def Let_def)

lemma round_half_even_upper: "of_int (round_half_even y) \<le> y + 1/2"
  by (simp add: round_half_even_def Let_def) linarith

lemma round_half_even_below: "y < of_int k \<Longrightarrow> round_half_even y \<le> k"
proof -
  assume "y < of_int k"
  with round_half_even_upper[of y] have "real_of_int (round_half_even y) < of_int k + 1/2" by linarith
  then have "real_of_int (round_half_even y) < of_int (k + 1)" by simp
  then have "round_half_even y < k + 1" using of_int_less_iff by blast
  then show ?thesis by simp
qed

lemma nearest_double_nonneg: "0 \<le> a \<Longrightarrow> nearest_double a = Some y \<Longrightarrow> 0 \<le> y"
  by (auto simp add: nearest_double_def Let_def round_half_even_nonneg split: if_splits)

lemma nearest_double_zero: "nearest_double 0 = Some 0"
  by (simp add: nearest_double_def)

text \<open>The double nearest to a magnitude whose binary exponent \<open>e\<close> is known.\<close>

lemma nearest_double_exponent:
  assumes "2 powr (of_int e) \<le> a" and "a < 2 powr (of_int (e + 1))" and "- 1022 \<le> e"
  shows "nearest_double a =
           (let ulp = 2 powr (of_int e - 52); y = of_int (round_half_even (a / ulp)) * ulp
            in if 2 ^ 1024 \<le> y then None else Some y)"
proof -
  have pos: "0 < a" using assms(1) by (smt (verit) powr_gt_zero)
  then have "\<lfloor>log 2 a\<rfloor> = e" using assms(1,2) by (simp add: floor_log_eq_powr_iff)
  then show ?thesis using pos assms(3) by (simp add: nearest_double_def Let_def max_def)
qed

lemma nearest_double_up:
  assumes "2 ^ n \<le> a" and "a < 2 * 2 ^ n" and "n \<le> 1022"
  shows "nearest_double a = Some (of_int (round_half_even (a * 2 ^ 52 / 2 ^ n)) * 2 ^ n / 2 ^ 52)"
proof -
  have p: "2 powr (real n) = (2::real) ^ n" by (simp add: powr_realpow)
  have q: "2 powr (real n + 1) = (2::real) * 2 ^ n"
    by (simp add: powr_add powr_realpow)
  have u: "2 powr (real n - 52) = (2::real) ^ n / 2 ^ 52"
    by (simp add: powr_diff powr_realpow)
  let ?t = "a * 2 ^ 52 / 2 ^ n"
  have "?t < 2 ^ 53" using assms(2) by (simp add: field_simps)
  then have "?t < of_int (2 ^ 53)" by simp
  then have "round_half_even ?t \<le> 2 ^ 53" by (rule round_half_even_below)
  then have "real_of_int (round_half_even ?t) \<le> 2 ^ 53"
    using of_int_le_iff[of "round_half_even ?t" "2 ^ 53"] by simp
  then have "real_of_int (round_half_even ?t) * 2 ^ n \<le> 2 ^ 53 * 2 ^ n" by simp
  also have "\<dots> = 2 ^ (53 + n)" by (simp add: power_add)
  also have "\<dots> \<le> (2::real) ^ 1075" using assms(3) by (intro power_increasing) auto
  finally have "real_of_int (round_half_even ?t) * 2 ^ n / 2 ^ 52 \<le> 2 ^ 1075 / 2 ^ 52"
    by (simp add: divide_right_mono)
  also have "\<dots> = (2::real) ^ 1023" by (simp add: power_diff)
  also have "\<dots> < (2::real) ^ 1024" by simp
  finally have small: "\<not> 2 ^ 1024 \<le> real_of_int (round_half_even ?t) * 2 ^ n / 2 ^ 52" by simp
  have "nearest_double a =
          (let ulp = 2 powr (of_int (int n) - 52); y = of_int (round_half_even (a / ulp)) * ulp
           in if 2 ^ 1024 \<le> y then None else Some y)"
    using assms(1,2) by (intro nearest_double_exponent) (simp_all add: p q)
  then show ?thesis using small by (simp add: u Let_def field_simps)
qed

lemma nearest_double_down:
  assumes "1 \<le> a * 2 ^ n" and "a * 2 ^ n < 2" and "n \<le> 1022"
  shows "nearest_double a = Some (of_int (round_half_even (a * 2 ^ (n + 52))) / 2 ^ (n + 52))"
proof -
  have p: "2 powr (- real n) = 1 / (2::real) ^ n"
    by (simp add: powr_minus powr_realpow inverse_eq_divide)
  have q: "2 powr (1 - real n) = 2 / (2::real) ^ n"
    by (simp add: powr_diff powr_realpow)
  have u: "2 powr (- real n - 52) = 1 / (2::real) ^ (n + 52)"
    by (simp add: powr_diff powr_minus powr_realpow inverse_eq_divide power_add)
  let ?t = "a * 2 ^ (n + 52)"
  have "?t = a * 2 ^ n * 2 ^ 52" by (simp add: power_add)
  also have "\<dots> < 2 * 2 ^ 52" using assms(2) by simp
  finally have "?t < of_int (2 ^ 53)" by simp
  then have "round_half_even ?t \<le> 2 ^ 53" by (rule round_half_even_below)
  then have "real_of_int (round_half_even ?t) \<le> 2 ^ 53"
    using of_int_le_iff[of "round_half_even ?t" "2 ^ 53"] by simp
  then have "real_of_int (round_half_even ?t) / 2 ^ (n + 52) \<le> 2 ^ 53 / 2 ^ (n + 52)"
    by (simp add: divide_right_mono)
  also have "\<dots> \<le> (2::real) ^ 53 / 2 ^ 52" by (intro divide_left_mono) (auto simp: power_add)
  also have "\<dots> = (2::real) ^ 1" by simp
  also have "\<dots> < (2::real) ^ 1024" by (intro power_strict_increasing) simp_all
  finally have small: "\<not> 2 ^ 1024 \<le> real_of_int (round_half_even ?t) / 2 ^ (n + 52)" by simp
  have "nearest_double a =
          (let ulp = 2 powr (of_int (- int n) - 52); y = of_int (round_half_even (a / ulp)) * ulp
           in if 2 ^ 1024 \<le> y then None else Some y)"
    using assms by (intro nearest_double_exponent) (simp_all add: p q field_simps)
  then show ?thesis using small by (simp add: u Let_def)
qed

lemma nearest_double_1: "nearest_double 1 = Some 1"
  using nearest_double_up[of 0 1] by (simp add: round_half_even_def)

lemma float_of_int_1: "float_of_int 1 = Some (Fin 1)"
  by (simp add: float_of_int_def nearest_double_1)

lemma float_of_int_0: "float_of_int 0 = Some (Fin 0)"
  by (simp add: float_of_int_def nearest_double_zero)

lemma float_of_int_minus_1: "float_of_int (- 1) = Some (Fin (- 1))"
  by (simp add: float_of_int_def nearest_double_1)

lemma VAT_RATE_value: "VAT_RATE = Fin (7566047373982433 / 2 ^ 55)"
  using nearest_double_down[of "21/100" 3]
  by (simp add: VAT_RATE_def float_of_def round_half_even_def)

text \<open>\<^verbatim>\<open>1 + VAT_RATE\<close> is the float \<^verbatim>\<open>1.21\<close>.\<close>

lemma one_plus_VAT_RATE: "float_add (Fin 1) VAT_RATE = float_1_21"
  using nearest_double_up[of 0 "1 + 7566047373982433 / 2 ^ 55"]
  by (simp add: VAT_RATE_value float_add_def float_of_def float_1_21_def round_half_even_def)

lemma float_nonneg_not_NaN: "float_nonneg x \<Longrightarrow> x \<noteq> NaN"
  by (cases x) simp_all

lemma float_of_nonneg: "0 \<le> a \<Longrightarrow> float_nonneg (float_of False a)"
  using nearest_double_nonneg[of a]
  by (auto simp add: float_of_def split: option.splits)

lemma float_of_negative_zero: "float_of True 0 = NegZero"
  by (simp add: float_of_def nearest_double_zero)

lemma float_mul_nonneg:
  "float_nonneg a \<Longrightarrow> 0 < c \<Longrightarrow> float_nonneg (float_mul a (Fin c))"
  by (cases a) (simp_all add: float_mul_def float_of_nonneg float_of_negative_zero)

lemma float_of_not_NaN: "float_of s a \<noteq> NaN"
  by (simp add: float_of_def split: option.splits)

lemma float_mul_NaN: "0 < c \<Longrightarrow> float_mul a (Fin c) = NaN \<longleftrightarrow> a = NaN"
  by (cases a) (simp_all add: float_mul_def float_of_not_NaN)

lemma py_round_nonneg: "float_nonneg x \<Longrightarrow> float_nonneg (py_round x n)"
proof (cases x)
  case (Fin v)
  assume "float_nonneg x"
  with Fin have v: "0 \<le> v" by simp
  then have "0 \<le> round_half_even (\<bar>v\<bar> * 10 ^ n)" by (intro round_half_even_nonneg) simp
  then have "0 \<le> real_of_int (round_half_even (\<bar>v\<bar> * 10 ^ n)) / 10 ^ n" by simp
  then show ?thesis using Fin v float_of_nonneg by (simp add: py_round_def)
qed (simp_all add: py_round_def)

lemma py_round_NaN: "py_round x n = NaN \<longleftrightarrow> x = NaN"
  by (cases x) (simp_all add: py_round_def float_of_not_NaN)

lemma float_of_int_nonneg: "float_of_int i = Some y \<Longrightarrow> 0 \<le> i \<Longrightarrow> float_nonneg y"
  using nearest_double_nonneg[of "of_int \<bar>i\<bar>"]
  by (auto simp add: float_of_int_def split: option.splits)

text \<open>The float the transformer computes from a pre-tax price of \<open>1\<close> is \<^verbatim>\<open>1.21\<close>;
  from \<^verbatim>\<open>1.5\<close> it is \<^verbatim>\<open>1.81\<close>, since the float product \<^verbatim>\<open>1.5 * 1.21\<close> lies below
  \<open>1.815\<close>.\<close>

lemma float_mul_1_21: "float_mul (Fin 1) float_1_21 = float_1_21"
  using nearest_double_up[of 0 "5449355549118300 / 2 ^ 52"]
  by (simp add: float_mul_def float_of_def float_1_21_def round_half_even_def)

lemma py_round_1_21: "py_round float_1_21 2 = float_1_21"
  using nearest_double_up[of 0 "121 / 100"]
  by (simp add: py_round_def float_of_def float_1_21_def round_half_even_def)

lemma price_with_vat_1: "price_with_vat (JInt 1) = Inr float_1_21"
  by (simp add: price_with_vat_def float_of_int_1 one_plus_VAT_RATE float_mul_1_21 py_round_1_21)

lemma price_with_vat_1_5:
  "price_with_vat (JFloat (Fin (3 / 2))) = Inr (Fin (8151515325540598 / 2 ^ 52))"
proof -
  have m: "float_mul (Fin (3 / 2)) float_1_21 = Fin (8174033323677450 / 2 ^ 52)"
    using nearest_double_up[of 0 "3 / 2 * (5449355549118300 / 2 ^ 52)"]
    by (simp add: float_mul_def float_of_def float_1_21_def round_half_even_def)
  have r: "py_round (Fin (8174033323677450 / 2 ^ 52)) 2 = Fin (8151515325540598 / 2 ^ 52)"
    using nearest_double_up[of 0 "181 / 100"]
    by (simp add: py_round_def float_of_def round_half_even_def)
  show ?thesis unfolding price_with_vat_def one_plus_VAT_RATE by (simp only: py_times.simps m r sum.case)
qed

lemma price_with_vat_sign:
  assumes "price_with_vat v = Inr price" and "py_lt_zero v = Inr False"
  shows "(price = NaN \<longleftrightarrow> v = JFloat NaN) \<and> (v \<noteq> JFloat NaN \<longrightarrow> float_nonneg price)"
proof -
  have c: "float_add (Fin 1) VAT_RATE = Fin (5449355549118300 / 2 ^ 52)"
    by (simp add: one_plus_VAT_RATE float_1_21_def)
  have pos: "(0::real) < 5449355549118300 / 2 ^ 52" by simp
  from assms(1) obtain y where y: "py_times v (Fin (5449355549118300 / 2 ^ 52)) = Inr y"
    and p: "price = py_round y 2"
    by (auto simp add: price_with_vat_def c split: sum.splits)
  have nan: "price = NaN \<longleftrightarrow> y = NaN" using p py_round_NaN by simp
  have nn: "float_nonneg y \<Longrightarrow> float_nonneg price" using p py_round_nonneg by simp
  show ?thesis
  proof (cases v)
    case (JBool b)
    with y obtain x where "float_of_int (if b then 1 else 0) = Some x" "y = float_mul x (Fin (5449355549118300 / 2 ^ 52))"
      by (auto split: option.splits)
    then have "float_nonneg y" using float_of_int_nonneg[of _ x] float_mul_nonneg[OF _ pos] by simp
    then show ?thesis using nn JBool float_nonneg_not_NaN by auto
  next
    case (JInt i)
    with assms(2) have i: "0 \<le> i" by simp
    from JInt y obtain x where "float_of_int i = Some x" "y = float_mul x (Fin (5449355549118300 / 2 ^ 52))"
      by (auto split: option.splits)
    then have "float_nonneg y" using float_of_int_nonneg[of i x] i float_mul_nonneg[OF _ pos] by simp
    then show ?thesis using nn JInt float_nonneg_not_NaN by auto
  next
    case (JFloat f)
    with y have ym: "y = float_mul f (Fin (5449355549118300 / 2 ^ 52))" by simp
    show ?thesis
    proof (cases "f = NaN")
      case True
      then show ?thesis using JFloat ym nan float_mul_NaN[OF pos] by simp
    next
      case False
      with JFloat assms(2) have "float_nonneg f" by (cases f) simp_all
      then have "float_nonneg y" using ym float_mul_nonneg[OF _ pos] by simp
      then show ?thesis using nn JFloat False float_nonneg_not_NaN by auto
    qed
  qed (use y in simp_all)
qed

section \<open>Properties of the transformer\<close>

lemma parse_stock_value_quantity: "parse_stock_value R v = Inr i \<Longrightarrow> i = quantity R v"
  by (auto simp add: parse_stock_value_def quantity_def split: sum.splits if_splits)

lemma sum_stock_eq: "sum_stock R acc vs = Inr t \<Longrightarrow> t = acc + sum_list (map (quantity R) vs)"
proof (induction vs arbitrary: acc)
  case Nil
  then show ?case by simp
next
  case (Cons v vs)
  from Cons.prems obtain i where i: "parse_stock_value R v = Inr i" and r: "sum_stock R (acc + i) vs = Inr t"
    by (auto split: sum.splits)
  from Cons.IH[OF r] parse_stock_value_quantity[OF i] show ?case by simp
qed

lemma price_with_vat_NaN: "price_with_vat (JFloat NaN) = Inr NaN"
  by (simp add: price_with_vat_def float_mul_def py_round_def)

text \<open>
  Claim C1, as amended. For every raw record that \<open>transform_product\<close> turns into a
  product, the fields \<^verbatim>\<open>price\<close> and \<^verbatim>\<open>stock\<close> are defined. The pre-tax price is a
  number that is not less than 0, and \<^verbatim>\<open>price\<close> is the float
  \<^verbatim>\<open>round(price_excl * (1 + VAT_RATE), 2)\<close>; unless the pre-tax price is NaN, it is not
  negative. \<^verbatim>\<open>stock\<close> is the integer sum over all location quantities, a quantity that
  \<^verbatim>\<open>int\<close> cannot parse counting as 0; a negative quantity is added as it is.
\<close>

theorem transform_product_price_stock:
  assumes "transform_product R raw = Inr (Some p)"
  shows "\<exists>price quantities.
      py_lt_zero (py_get raw ''price_vat_excl'') = Inr False
    \<and> price_with_vat (py_get raw ''price_vat_excl'') = Inr price
    \<and> map_of p ''price'' = Some (JFloat price)
    \<and> (py_get raw ''price_vat_excl'' \<noteq> JFloat NaN \<longrightarrow> float_nonneg price)
    \<and> py_values (py_or (py_get raw ''stocks'') (JObj [])) = Inr quantities
    \<and> map_of p ''stock'' = Some (JInt (sum_list (map (quantity R) quantities)))"
proof -
  from assms have lt: "py_lt_zero (py_get raw ''price_vat_excl'') = Inr False"
    by (auto simp add: transform_product_def Let_def split: if_splits sum.splits)
  from assms lt obtain quantities
    where st: "py_values (py_or (py_get raw ''stocks'') (JObj [])) = Inr quantities"
    by (auto simp add: transform_product_def Let_def split: if_splits sum.splits)
  from assms lt st obtain total where tot: "sum_stock R 0 quantities = Inr total"
    by (auto simp add: transform_product_def Let_def split: if_splits sum.splits)
  from assms lt st tot obtain price
    where pr: "price_with_vat (py_get raw ''price_vat_excl'') = Inr price"
    by (auto simp add: transform_product_def Let_def split: if_splits sum.splits)
  from assms lt st tot pr
  have "map_of p ''price'' = Some (JFloat price) \<and> map_of p ''stock'' = Some (JInt total)"
    by (auto simp add: transform_product_def Let_def split: if_splits sum.splits)
  moreover have "total = sum_list (map (quantity R) quantities)"
    using sum_stock_eq[OF tot] by simp
  moreover have "py_get raw ''price_vat_excl'' \<noteq> JFloat NaN \<longrightarrow> float_nonneg price"
    using price_with_vat_sign[OF pr lt] by simp
  ultimately show ?thesis using lt st pr by blast
qed

text \<open>
  Claim C1 as stated fails: a record with a valid price and the quantities \<open>-5\<close> and
  \<open>2\<close> is not dropped, and its product has the stock \<open>-3\<close>. A record whose pre-tax price
  is NaN is not dropped either (NaN is not less than 0), and the price of its product is
  NaN, which is not a non-negative number.
\<close>

theorem negative_stock_counterexample:
  "transform_product example_runtime
     [(''id'', JStr ''SKU-009''), (''title'', JStr ''Filtry''), (''price_vat_excl'', JInt 1),
      (''stocks'', JObj [(''praha'', JInt (- 5)), (''brno'', JInt 2)]), (''attributes'', JNull)]
   = Inr (Some [(''sku'', JStr ''SKU-009''), (''title'', JStr ''Filtry''), (''price'', JFloat float_1_21),
                (''stock'', JInt (- 3)), (''color'', JStr ''N/A'')])
   \<and> (- 3 :: int) < 0
   \<and> transform_product example_runtime
     [(''id'', JStr ''SKU-010''), (''title'', JStr ''Filtry''), (''price_vat_excl'', JFloat NaN)]
   = Inr (Some [(''sku'', JStr ''SKU-010''), (''title'', JStr ''Filtry''), (''price'', JFloat NaN),
                (''stock'', JInt 0), (''color'', JStr ''N/A'')])
   \<and> \<not> float_nonneg NaN"
  by (simp add: transform_product_def py_get_def py_get_default_def py_or_def py_values_def
      py_method_get_def parse_stock_value_def price_with_vat_1 price_with_vat_NaN Let_def)

theorem transform_product_price_stock_witness:
  "transform_product example_runtime
     [(''id'', JStr ''SKU-001''), (''title'', JStr ''Kavovar''), (''price_vat_excl'', JInt 1),
      (''stocks'', JObj [(''praha'', JInt 3), (''brno'', JStr ''2''), (''sklad'', JStr ''N/A'')]),
      (''attributes'', JObj [(''color'', JStr ''red'')])]
   = Inr (Some [(''sku'', JStr ''SKU-001''), (''title'', JStr ''Kavovar''), (''price'', JFloat float_1_21),
                (''stock'', JInt 5), (''color'', JStr ''red'')])
   \<and> price_with_vat (JInt 1) = Inr float_1_21
   \<and> float_nonneg float_1_21
   \<and> map (quantity example_runtime) [JInt 3, JStr ''2'', JStr ''N/A''] = [3, 2, 0]"
  using transform_product_price_stock [of example_runtime
     "[(''id'', JStr ''SKU-001''), (''title'', JStr ''Kavovar''), (''price_vat_excl'', JInt 1),
      (''stocks'', JObj [(''praha'', JInt 3), (''brno'', JStr ''2''), (''sklad'', JStr ''N/A'')]),
      (''attributes'', JObj [(''color'', JStr ''red'')])]"
     "[(''sku'', JStr ''SKU-001''), (''title'', JStr ''Kavovar''), (''price'', JFloat float_1_21),
                (''stock'', JInt 5), (''color'', JStr ''red'')]"]
  by (simp add: transform_product_def py_get_def py_get_default_def py_or_def py_values_def
      py_method_get_def parse_stock_value_def price_with_vat_1 Let_def quantity_def
      example_runtime_def plain_int_of_str_def float_1_21_def)

text \<open>Two records on which \<open>transform_product\<close> raises: an integer price too large for
  a float, and an infinite quantity (the JSON number \<^verbatim>\<open>1e400\<close>).\<close>

lemma nearest_double_overflow: "nearest_double (2 ^ 1024) = None"
  using nearest_double_exponent[of 1024 "2 ^ 1024"]
  by (simp add: Let_def round_half_even_def powr_diff)

lemma huge_price_raises:
  "transform_product R [(''id'', JStr ''SKU-001''), (''price_vat_excl'', JInt (2 ^ 1024))]
   = Inl OverflowError"
  using nearest_double_overflow
  by (simp add: transform_product_def py_get_def py_get_default_def py_or_def py_values_def
      py_method_get_def price_with_vat_def float_of_int_def Let_def)

lemma infinite_quantity_raises:
  "transform_product R [(''id'', JStr ''SKU-001''), (''price_vat_excl'', JInt 1),
      (''stocks'', JObj [(''praha'', JFloat PInf)])]
   = Inl OverflowError"
  by (simp add: transform_product_def py_get_def py_get_default_def py_or_def py_values_def
      parse_stock_value_def Let_def)

lemma dedupe_loop_result:
  "dedupe_loop seen items = Inr out \<Longrightarrow>
   \<exists>new. out = seen @ new
     \<and> subseq (map snd new) items
     \<and> distinct (map fst new)
     \<and> fst ` set new \<inter> fst ` set seen = {}
     \<and> (\<forall>(k, r) \<in> set new. find (\<lambda>x. record_key x = Some k) items = Some r)
     \<and> (\<forall>r \<in> set items. \<exists>k. record_key r = Some k \<and> k \<in> fst ` set out)"
proof (induction items arbitrary: seen out)
  case Nil
  then show ?case by simp
next
  case (Cons item rest)
  from Cons.prems obtain sku where sku: "record_key item = Some sku"
    by (auto split: option.splits)
  show ?case
  proof (cases "sku \<in> fst ` set seen")
    case True
    with Cons.prems sku have "dedupe_loop seen rest = Inr out" by simp
    from Cons.IH[OF this] obtain new where n: "out = seen @ new" "subseq (map snd new) rest"
      "distinct (map fst new)" "fst ` set new \<inter> fst ` set seen = {}"
      "\<forall>(k, r) \<in> set new. find (\<lambda>x. record_key x = Some k) rest = Some r"
      "\<forall>r \<in> set rest. \<exists>k. record_key r = Some k \<and> k \<in> fst ` set out"
      by blast
    have f: "\<forall>(k, r) \<in> set new. find (\<lambda>x. record_key x = Some k) (item # rest) = Some r"
    proof (clarify)
      fix k r assume kr: "(k, r) \<in> set new"
      then have "k \<in> fst ` set new" by force
      with n(4) True have "k \<noteq> sku" by auto
      with sku n(5) kr show "find (\<lambda>x. record_key x = Some k) (item # rest) = Some r" by auto
    qed
    have c: "\<forall>r \<in> set (item # rest). \<exists>k. record_key r = Some k \<and> k \<in> fst ` set out"
      using n(1,6) sku True by auto
    show ?thesis
      by (intro exI[of _ new]) (use n f c in \<open>auto intro: subseq_Cons'\<close>)
  next
    case False
    with Cons.prems sku have "dedupe_loop (seen @ [(sku, item)]) rest = Inr out" by simp
    from Cons.IH[OF this] obtain new where n: "out = (seen @ [(sku, item)]) @ new" "subseq (map snd new) rest"
      "distinct (map fst new)" "fst ` set new \<inter> fst ` set (seen @ [(sku, item)]) = {}"
      "\<forall>(k, r) \<in> set new. find (\<lambda>x. record_key x = Some k) rest = Some r"
      "\<forall>r \<in> set rest. \<exists>k. record_key r = Some k \<and> k \<in> fst ` set out"
      by blast
    let ?new = "(sku, item) # new"
    have a: "out = seen @ ?new" using n(1) by simp
    have b: "subseq (map snd ?new) (item # rest)" using n(2) by simp
    have nk: "sku \<notin> fst ` set new" using n(4) by auto
    have d: "distinct (map fst ?new)" using n(3) nk by (simp add: image_iff)
    have e: "fst ` set ?new \<inter> fst ` set seen = {}" using n(4) False by auto
    have f: "\<forall>(k, r) \<in> set ?new. find (\<lambda>x. record_key x = Some k) (item # rest) = Some r"
    proof (clarify)
      fix k r assume kr: "(k, r) \<in> set ?new"
      show "find (\<lambda>x. record_key x = Some k) (item # rest) = Some r"
      proof (cases "(k, r) = (sku, item)")
        case True
        then show ?thesis using sku by simp
      next
        case False
        with kr have in_new: "(k, r) \<in> set new" by auto
        then have "k \<in> fst ` set new" by force
        with nk have "k \<noteq> sku" by auto
        with sku n(5) in_new show ?thesis by auto
      qed
    qed
    have c: "\<forall>r \<in> set (item # rest). \<exists>k. record_key r = Some k \<and> k \<in> fst ` set out"
      using n(1,6) sku by auto
    show ?thesis
      by (intro exI[of _ ?new]) (use a b d e f c in blast)
  qed
qed

lemma transform_loop_result:
  "transform_loop R result raws = Inr ps \<Longrightarrow>
   \<exists>new. ps = result @ new
     \<and> map (transform_product R) (filter (\<lambda>r. transform_product R r \<noteq> Inr None) raws)
         = map (\<lambda>p. Inr (Some p)) new"
proof (induction raws arbitrary: result)
  case Nil
  then show ?case by simp
next
  case (Cons raw raws)
  show ?case
  proof (cases "transform_product R raw")
    case (Inl e)
    with Cons.prems show ?thesis by simp
  next
    case (Inr t)
    show ?thesis
    proof (cases t)
      case None
      with Cons.prems Inr have "transform_loop R result raws = Inr ps" by simp
      from Cons.IH[OF this] show ?thesis using Inr None by simp
    next
      case (Some transformed)
      with Cons.prems Inr have "transform_loop R (result @ [transformed]) raws = Inr ps" by simp
      from Cons.IH[OF this] obtain new where n: "ps = (result @ [transformed]) @ new"
        "map (transform_product R) (filter (\<lambda>r. transform_product R r \<noteq> Inr None) raws)
           = map (\<lambda>p. Inr (Some p)) new" by blast
      show ?thesis
        by (intro exI[of _ "transformed # new"]) (use n Inr Some in simp)
    qed
  qed
qed

lemma load_erp_data_result:
  assumes "load_erp_data raws = Inr rs"
  shows "subseq rs raws" and "distinct (map record_key rs)"
    and "\<forall>r \<in> set rs. find (\<lambda>x. record_key x = record_key r) raws = Some r"
    and "\<forall>x \<in> set raws. \<exists>r \<in> set rs. record_key r = record_key x"
proof -
  from assms obtain out where o: "dedupe_loop [] raws = Inr out" "rs = map snd out"
    by (auto simp add: load_erp_data_def split: sum.splits)
  from dedupe_loop_result[OF o(1)]
  have n: "subseq (map snd out) raws" "distinct (map fst out)"
    "\<forall>(k, r) \<in> set out. find (\<lambda>x. record_key x = Some k) raws = Some r"
    "\<forall>r \<in> set raws. \<exists>k. record_key r = Some k \<and> k \<in> fst ` set out"
    by auto
  have key: "\<forall>e \<in> set out. record_key (snd e) = Some (fst e)"
    using n(3) by (auto simp add: find_Some_iff)
  show "subseq rs raws" using n(1) o(2) by simp
  have "map record_key rs = map (\<lambda>e. Some (fst e)) out" using key o(2) by simp
  also have "\<dots> = map Some (map fst out)" by simp
  finally have "map record_key rs = map Some (map fst out)" .
  moreover have "distinct (map Some (map fst out))"
    using n(2) by (subst distinct_map) (auto intro: inj_onI)
  ultimately show "distinct (map record_key rs)" by simp
  show "\<forall>r \<in> set rs. find (\<lambda>x. record_key x = record_key r) raws = Some r"
    using n(3) key o(2) by fastforce
  show "\<forall>x \<in> set raws. \<exists>r \<in> set rs. record_key r = record_key x"
  proof
    fix x assume "x \<in> set raws"
    with n(4) obtain k where k: "record_key x = Some k" "k \<in> fst ` set out" by blast
    then obtain e where e: "e \<in> set out" "fst e = k" by auto
    with key have "record_key (snd e) = Some k" by simp
    with e(1) k(1) o(2) show "\<exists>r \<in> set rs. record_key r = record_key x" by force
  qed
qed
text \<open>
  Claim C6. \<open>load_erp_data\<close> keeps, of the records of the batch, exactly the first
  occurrence of every identifier, in the order of the batch: its result is a
  subsequence of the batch, no two of its records have the same identifier, each of
  its records is the first record of the batch with its identifier, and every
  identifier of the batch is represented. Consequently, in \<open>load_and_transform\<close>, when
  the first record with identifier \<open>k\<close> is dropped by \<open>transform_product\<close>, the products
  returned are the transforms of records of the batch none of which has identifier \<open>k\<close>:
  the identifier yields no output, whatever later duplicates would give.
\<close>

theorem first_occurrence_wins:
  "(load_erp_data raws = Inr rs \<longrightarrow>
       subseq rs raws \<and> distinct (map record_key rs)
     \<and> (\<forall>r \<in> set rs. find (\<lambda>x. record_key x = record_key r) raws = Some r)
     \<and> (\<forall>x \<in> set raws. \<exists>r \<in> set rs. record_key r = record_key x))
   \<and> (load_and_transform R raws = Inr ps \<and> find (\<lambda>x. record_key x = k) raws = Some first
        \<and> transform_product R first = Inr None \<longrightarrow>
       (\<exists>kept. subseq kept raws \<and> (\<forall>r \<in> set kept. record_key r \<noteq> k)
          \<and> map (transform_product R) kept = map (\<lambda>p. Inr (Some p)) ps))"
proof (intro conjI impI)
  assume a: "load_erp_data raws = Inr rs"
  show "subseq rs raws" "distinct (map record_key rs)"
    "\<forall>r \<in> set rs. find (\<lambda>x. record_key x = record_key r) raws = Some r"
    "\<forall>x \<in> set raws. \<exists>r \<in> set rs. record_key r = record_key x"
    using load_erp_data_result[OF a] by blast+
next
  assume h: "load_and_transform R raws = Inr ps \<and> find (\<lambda>x. record_key x = k) raws = Some first
        \<and> transform_product R first = Inr None"
  then obtain rs' where l: "load_erp_data raws = Inr rs'" and t: "transform_loop R [] rs' = Inr ps"
    by (auto simp add: load_and_transform_def split: sum.splits)
  let ?kept = "filter (\<lambda>r. transform_product R r \<noteq> Inr None) rs'"
  from transform_loop_result[OF t]
  have m: "map (transform_product R) ?kept = map (\<lambda>p. Inr (Some p)) ps" by simp
  have "subseq ?kept rs'" by simp
  with load_erp_data_result(1)[OF l] have s: "subseq ?kept raws"
    using subseq_order.trans by blast
  have "\<forall>r \<in> set ?kept. record_key r \<noteq> k"
  proof
    fix r assume r: "r \<in> set ?kept"
    show "record_key r \<noteq> k"
    proof
      assume "record_key r = k"
      moreover from r have "r \<in> set rs'" by simp
      ultimately have "find (\<lambda>x. record_key x = k) raws = Some r"
        using load_erp_data_result(3)[OF l] by blast
      with h have "r = first" by simp
      with h r show False by simp
    qed
  qed
  with s m show "\<exists>kept. subseq kept raws \<and> (\<forall>r \<in> set kept. record_key r \<noteq> k)
          \<and> map (transform_product R) kept = map (\<lambda>p. Inr (Some p)) ps"
    by blast
qed
theorem first_occurrence_wins_witness:
  "load_erp_data
     [[(''id'', JStr ''SKU-DUP''), (''title'', JStr ''Bad''), (''price_vat_excl'', JNull)],
      [(''id'', JStr ''SKU-DUP''), (''title'', JStr ''Good''), (''price_vat_excl'', JInt 1)],
      [(''id'', JStr ''SKU-002''), (''title'', JStr ''Other''), (''price_vat_excl'', JInt 1)]]
   = Inr [[(''id'', JStr ''SKU-DUP''), (''title'', JStr ''Bad''), (''price_vat_excl'', JNull)],
          [(''id'', JStr ''SKU-002''), (''title'', JStr ''Other''), (''price_vat_excl'', JInt 1)]]
   \<and> transform_product example_runtime
         [(''id'', JStr ''SKU-DUP''), (''title'', JStr ''Bad''), (''price_vat_excl'', JNull)] = Inr None
   \<and> transform_product example_runtime
         [(''id'', JStr ''SKU-DUP''), (''title'', JStr ''Good''), (''price_vat_excl'', JInt 1)]
       = Inr (Some [(''sku'', JStr ''SKU-DUP''), (''title'', JStr ''Good''), (''price'', JFloat float_1_21),
                    (''stock'', JInt 0), (''color'', JStr ''N/A'')])
   \<and> load_and_transform example_runtime
     [[(''id'', JStr ''SKU-DUP''), (''title'', JStr ''Bad''), (''price_vat_excl'', JNull)],
      [(''id'', JStr ''SKU-DUP''), (''title'', JStr ''Good''), (''price_vat_excl'', JInt 1)],
      [(''id'', JStr ''SKU-002''), (''title'', JStr ''Other''), (''price_vat_excl'', JInt 1)]]
   = Inr [[(''sku'', JStr ''SKU-002''), (''title'', JStr ''Other''), (''price'', JFloat float_1_21),
           (''stock'', JInt 0), (''color'', JStr ''N/A'')]]"
  using first_occurrence_wins [of
     "[[(''id'', JStr ''SKU-DUP''), (''title'', JStr ''Bad''), (''price_vat_excl'', JNull)],
      [(''id'', JStr ''SKU-DUP''), (''title'', JStr ''Good''), (''price_vat_excl'', JInt 1)],
      [(''id'', JStr ''SKU-002''), (''title'', JStr ''Other''), (''price_vat_excl'', JInt 1)]]"
     "[[(''id'', JStr ''SKU-DUP''), (''title'', JStr ''Bad''), (''price_vat_excl'', JNull)],
          [(''id'', JStr ''SKU-002''), (''title'', JStr ''Other''), (''price_vat_excl'', JInt 1)]]"
     example_runtime
     "[[(''sku'', JStr ''SKU-002''), (''title'', JStr ''Other''), (''price'', JFloat float_1_21),
           (''stock'', JInt 0), (''color'', JStr ''N/A'')]]"
     "Some (KStr ''SKU-DUP'')"
     "[(''id'', JStr ''SKU-DUP''), (''title'', JStr ''Bad''), (''price_vat_excl'', JNull)]"]
  by (simp add: load_erp_data_def load_and_transform_def record_key_def
      transform_product_def py_get_def py_get_default_def py_or_def py_values_def
      py_method_get_def parse_stock_value_def price_with_vat_1 Let_def)

lemma filter_same_key:
  "distinct (map f xs) \<Longrightarrow> k \<in> set xs \<Longrightarrow> filter (\<lambda>x. f k = f x) xs = [k]"
proof (induction xs)
  case Nil
  then show ?case by simp
next
  case (Cons a xs)
  show ?case
  proof (cases "k = a")
    case True
    have "filter (\<lambda>x. f a = f x) xs = []"
      using Cons.prems(1) by (auto simp add: filter_empty_conv)
    with True show ?thesis by simp
  next
    case False
    with Cons.prems have k: "k \<in> set xs" and d: "distinct (map f xs)" and "f a \<notin> f ` set xs" by auto
    then have "f k \<noteq> f a" by (metis imageI)
    with Cons.IH[OF d k] show ?thesis by simp
  qed
qed

lemma sort_key_permutation:
  assumes "distinct (map f xs)" and "mset ys = mset xs"
  shows "sort_key f ys = sort_key f xs"
proof (rule properties_for_sort_key)
  show "mset (sort_key f xs) = mset ys" using assms(2) by simp
  show "sorted (map f (sort_key f xs))" by simp
  have "mset (map f ys) = mset (map f xs)" using assms(2) by simp
  then have dy: "distinct (map f ys)" using assms(1) mset_eq_imp_distinct_iff by blast
  have "mset (map f (sort_key f xs)) = mset (map f xs)" by simp
  then have ds: "distinct (map f (sort_key f xs))" using assms(1) mset_eq_imp_distinct_iff by blast
  fix k assume k: "k \<in> set (sort_key f xs)"
  then have "k \<in> set ys" using assms(2) mset_eq_setD by fastforce
  then have "filter (\<lambda>x. f k = f x) ys = [k]" using dy by (rule filter_same_key[rotated])
  moreover have "filter (\<lambda>x. f k = f x) (sort_key f xs) = [k]" using ds k by (rule filter_same_key)
  ultimately show "filter (\<lambda>x. f k = f x) (sort_key f xs) = filter (\<lambda>x. f k = f x) ys" by simp
qed

lemma hex_digit_range: "hex_digit n \<in> set ''0123456789abcdef''"
proof -
  have "n mod 16 < length ''0123456789abcdef''" by simp
  then show ?thesis unfolding hex_digit_def by (rule nth_mem)
qed
lemma unprintable_permutation: "set q = set p \<Longrightarrow> unprintable R (JObj q) = unprintable R (JObj p)"
  by simp

lemma example_dumps_1:
  "dumps example_runtime (JObj example_product_1)
   = [CHR ''{'', CHR 0x22] @ ''color'' @ [CHR 0x22] @ '': '' @ [CHR 0x22] @ ''N/A'' @ [CHR 0x22] @ '', ''
     @ [CHR 0x22] @ ''price'' @ [CHR 0x22] @ '': 1.21, ''
     @ [CHR 0x22] @ ''sku'' @ [CHR 0x22] @ '': '' @ [CHR 0x22] @ ''SKU-001'' @ [CHR 0x22] @ '', ''
     @ [CHR 0x22] @ ''stock'' @ [CHR 0x22] @ '': 5, ''
     @ [CHR 0x22] @ ''title'' @ [CHR 0x22] @ '': '' @ [CHR 0x22] @ ''A'' @ [CHR 0x22] @ ''}''"
  by (simp add: example_product_1_def example_runtime_def cents_repr_def Let_def json_str_def
      escape_char_def show_int_def decimal.simps hex_digit_def float_1_21_def)

lemma example_printable_1: "\<not> unprintable example_runtime (JObj example_product_1)"
  by (simp add: example_product_1_def example_runtime_def decimal.simps)

lemma example_encodable_1: "\<not> has_surrogate (dumps example_runtime (JObj example_product_1))"
  unfolding example_dumps_1 by simp

lemma example_sha256: "sha256 example_runtime = tail_digest"
  by (simp add: example_runtime_def)

lemma example_compute_hash_1: "compute_hash example_runtime example_product_1 = Inr example_hash_1"
  unfolding compute_hash_def Let_def example_hash_1_def example_sha256
  using example_printable_1 example_encodable_1
  by (simp del: dumps.simps unprintable.simps)

text \<open>
  Claim C8. \<open>compute_hash\<close> is a function of the product alone, and two lists of the
  same items (a dictionary written in two insertion orders; its keys are distinct) have
  the same result: the same digest, or the same exception where the product cannot be
  serialised. Every digest is a string of exactly 64 characters, each a lower-case
  hexadecimal digit. A digest is returned for every product that \<^verbatim>\<open>json.dumps\<close> can
  print and whose serialisation \<^verbatim>\<open>encode\<close> accepts; otherwise the exception is
  \<^verbatim>\<open>ValueError\<close> or \<^verbatim>\<open>UnicodeEncodeError\<close>.
\<close>

theorem compute_hash_canonical:
  "(distinct (map fst p) \<and> mset q = mset p \<longrightarrow> compute_hash R q = compute_hash R p)
   \<and> (compute_hash R p = Inr h \<longrightarrow> length h = 64 \<and> set h \<subseteq> set ''0123456789abcdef'')
   \<and> (\<not> unprintable R (JObj p) \<and> \<not> has_surrogate (dumps R (JObj p))
        \<longrightarrow> (\<exists>d. compute_hash R p = Inr d))
   \<and> (compute_hash R p = Inl e \<longrightarrow> e = ValueError \<or> e = UnicodeEncodeError)"
proof (intro conjI impI)
  assume a: "distinct (map fst p) \<and> mset q = mset p"
  then have "sort_key fst q = sort_key fst p" using sort_key_permutation[of fst p q] by simp
  moreover from a have "set q = set p" using mset_eq_setD by blast
  then have "unprintable R (JObj q) = unprintable R (JObj p)" by (rule unprintable_permutation)
  ultimately show "compute_hash R q = compute_hash R p" by (simp add: compute_hash_def)
next
  assume "compute_hash R p = Inr h"
  then have h: "h = hexdigest (sha256 R (dumps R (JObj p)))"
    by (auto simp add: compute_hash_def Let_def split: if_splits)
  show "length h = 64" by (simp add: h hexdigest_def)
  show "set h \<subseteq> set ''0123456789abcdef''"
    unfolding h hexdigest_def using hex_digit_range by auto
next
  assume "\<not> unprintable R (JObj p) \<and> \<not> has_surrogate (dumps R (JObj p))"
  then show "\<exists>d. compute_hash R p = Inr d"
    by (simp add: compute_hash_def Let_def del: dumps.simps unprintable.simps)
next
  assume "compute_hash R p = Inl e"
  then show "e = ValueError \<or> e = UnicodeEncodeError"
    by (auto simp add: compute_hash_def Let_def simp del: dumps.simps unprintable.simps split: if_splits)
qed

theorem compute_hash_canonical_witness:
  "distinct (map fst example_product_1)
   \<and> mset [(''color'', JStr ''N/A''), (''stock'', JInt 5), (''price'', JFloat float_1_21),
            (''title'', JStr ''A''), (''sku'', JStr ''SKU-001'')]
       = mset example_product_1
   \<and> compute_hash example_runtime
         [(''color'', JStr ''N/A''), (''stock'', JInt 5), (''price'', JFloat float_1_21),
          (''title'', JStr ''A''), (''sku'', JStr ''SKU-001'')]
       = Inr example_hash_1
   \<and> compute_hash example_runtime example_product_1 = Inr example_hash_1
   \<and> length example_hash_1 = 64"
  using compute_hash_canonical [of example_product_1
     "[(''color'', JStr ''N/A''), (''stock'', JInt 5), (''price'', JFloat float_1_21),
       (''title'', JStr ''A''), (''sku'', JStr ''SKU-001'')]" example_runtime example_hash_1 ValueError]
  by (simp add: example_compute_hash_1) (simp add: example_product_1_def)

section \<open>Properties of the client\<close>

lemma nearest_double_giga:
  "nearest_double (10 ^ 9) = Some (10 ^ 9)"
  "nearest_double (2 * 10 ^ 9) = Some (2 * 10 ^ 9)"
  "nearest_double (4 * 10 ^ 9) = Some (4 * 10 ^ 9)"
  using nearest_double_up[of 29 "10 ^ 9"] nearest_double_up[of 30 "2 * 10 ^ 9"]
    nearest_double_up[of 31 "4 * 10 ^ 9"]
  by (simp_all add: round_half_even_def)

text \<open>\<^verbatim>\<open>time.sleep\<close> returns for the three values of the backoff and for 0; it raises
  \<^verbatim>\<open>ValueError\<close> for \<open>-1\<close> and for NaN, and \<^verbatim>\<open>OverflowError\<close> for an infinity.\<close>

lemma sleep_error_backoff:
  "sleep_error (Fin 1) = None" "sleep_error (Fin 2) = None" "sleep_error (Fin 4) = None"
  "sleep_error (Fin 0) = None"
  using nearest_double_giga
  by (simp_all add: sleep_error_def float_mul_def float_of_def nearest_double_zero)

lemma sleep_error_invalid:
  "sleep_error (Fin (- 1)) = Some ValueError" "sleep_error NaN = Some ValueError"
  "sleep_error PInf = Some OverflowError" "sleep_error NInf = Some OverflowError"
  using nearest_double_giga
  by (simp_all add: sleep_error_def float_mul_def float_of_def)

lemma retry_waits_append: "retry_waits (xs @ ys) = retry_waits xs @ retry_waits ys"
  by (induction xs rule: retry_waits.induct) auto

lemma attempt_requests:
  "length (requests (snd (attempt E m u b (c, w)))) = Suc (length (requests w))"
  by (simp add: attempt_def Let_def split: prod.splits)

lemma attempt_waits:
  "retry_waits (naps (snd (attempt E m u b (c, w)))) = retry_waits (naps w)"
  by (simp add: attempt_def Let_def retry_waits_append split: prod.splits option.splits)

lemma attempt_db:
  "db (snd (attempt E m u b (c, w))) = db w \<and> journal (snd (attempt E m u b (c, w))) = journal w"
  by (simp add: attempt_def Let_def split: prod.splits)

lemma retry_loop_Suc:
  "retry_loop R E m u b (Suc left) bk (c, w) =
     (case attempt E m u b (c, w) of (c1, w1) \<Rightarrow>
      case reply E (length (requests w)) of
        Fails e \<Rightarrow> (Inl (RequestException e), c1, w1)
      | Responds r \<Rightarrow>
          if status_code r = 429 then
            (case sleep_error (wait_of R r bk) of
               Some e \<Rightarrow> (Inl e, c1, w1)
             | None \<Rightarrow>
                 retry_loop R E m u b left (bk * 2)
                   (c1, w1\<lparr>naps := naps w1 @ [RetrySleep (wait_of R r bk)]\<rparr>))
          else if 400 \<le> status_code r \<and> status_code r < 600 then (Inl (HTTPError r), c1, w1)
          else (Inr r, c1, w1))"
  by (simp add: attempt_def wait_of_def Let_def split: prod.splits reply.splits option.splits)

lemma retry_loop_bound:
  "retry_loop R E m u b left bk (c, w) = (res, c', w') \<Longrightarrow>
   length (requests w') \<le> length (requests w) + left \<and> db w' = db w \<and> journal w' = journal w"
proof (induction left arbitrary: c w bk)
  case 0
  then show ?case by simp
next
  case (Suc left)
  obtain c1 w1 where a: "attempt E m u b (c, w) = (c1, w1)" by (cases "attempt E m u b (c, w)")
  have l1: "length (requests w1) = Suc (length (requests w))" and d1: "db w1 = db w" "journal w1 = journal w"
    using attempt_requests[of E m u b c w] attempt_db[of E m u b c w] a by simp_all
  show ?case
  proof (cases "reply E (length (requests w))")
    case (Fails e)
    then show ?thesis using Suc.prems a l1 d1 by (auto simp add: retry_loop_Suc simp del: retry_loop.simps)
  next
    case (Responds r)
    show ?thesis
    proof (cases "status_code r = 429 \<and> sleep_error (wait_of R r bk) = None")
      case True
      let ?w2 = "w1\<lparr>naps := naps w1 @ [RetrySleep (wait_of R r bk)]\<rparr>"
      from Suc.prems a Responds True
      have "retry_loop R E m u b left (bk * 2) (c1, ?w2) = (res, c', w')"
        by (simp add: retry_loop_Suc del: retry_loop.simps)
      from Suc.IH[OF this] l1 d1 show ?thesis by simp
    next
      case False
      then show ?thesis using Suc.prems a l1 d1 Responds
        by (auto simp add: retry_loop_Suc simp del: retry_loop.simps split: if_splits option.splits)
    qed
  qed
qed

text \<open>\<open>k\<close> throttled attempts whose waits \<^verbatim>\<open>time.sleep\<close> accepts: the loop goes on with
  \<open>k\<close> attempts less, having issued \<open>k\<close> requests and slept \<open>k\<close> times.\<close>

lemma retry_loop_throttled:
  assumes "\<forall>j<k. reply E (length (requests w) + j) = Responds (rs j) \<and> status_code (rs j) = 429
                 \<and> sleep_error (wait_of R (rs j) (bk * 2 ^ j)) = None"
    and "k \<le> left"
  shows "\<exists>c1 w1. retry_loop R E m u b left bk (c, w) = retry_loop R E m u b (left - k) (bk * 2 ^ k) (c1, w1)
           \<and> length (requests w1) = length (requests w) + k
           \<and> retry_waits (naps w1) = retry_waits (naps w) @ map (\<lambda>j. wait_of R (rs j) (bk * 2 ^ j)) [0..<k]"
  using assms
proof (induction k arbitrary: left bk c w rs)
  case 0
  show ?case by (intro exI[of _ c] exI[of _ w]) simp
next
  case (Suc k)
  from Suc.prems(2) obtain left' where left: "left = Suc left'" and k: "k \<le> left'"
    by (cases left) auto
  obtain c1 w1 where a: "attempt E m u b (c, w) = (c1, w1)" by (cases "attempt E m u b (c, w)")
  have l1: "length (requests w1) = Suc (length (requests w))"
    and n1: "retry_waits (naps w1) = retry_waits (naps w)"
    using attempt_requests[of E m u b c w] attempt_waits[of E m u b c w] a by simp_all
  let ?w2 = "w1\<lparr>naps := naps w1 @ [RetrySleep (wait_of R (rs 0) bk)]\<rparr>"
  from Suc.prems(1) have r0: "reply E (length (requests w)) = Responds (rs 0)" "status_code (rs 0) = 429"
    "sleep_error (wait_of R (rs 0) bk) = None"
    by force+
  have step: "retry_loop R E m u b left bk (c, w) = retry_loop R E m u b left' (bk * 2) (c1, ?w2)"
    using a r0 left by (simp add: retry_loop_Suc del: retry_loop.simps)
  have rest: "\<forall>j<k. reply E (length (requests ?w2) + j) = Responds (rs (Suc j)) \<and> status_code (rs (Suc j)) = 429
                 \<and> sleep_error (wait_of R (rs (Suc j)) (bk * 2 * 2 ^ j)) = None"
    using Suc.prems(1) l1 by (auto simp: mult.assoc)
  from Suc.IH[OF rest k, of c1]
  obtain c2 w2 where ih: "retry_loop R E m u b left' (bk * 2) (c1, ?w2) = retry_loop R E m u b (left' - k) (bk * 2 * 2 ^ k) (c2, w2)"
    "length (requests w2) = length (requests ?w2) + k"
    "retry_waits (naps w2) = retry_waits (naps ?w2) @ map (\<lambda>j. wait_of R (rs (Suc j)) (bk * 2 * 2 ^ j)) [0..<k]"
    by blast
  have "retry_waits (naps w2) = retry_waits (naps w) @ map (\<lambda>j. wait_of R (rs j) (bk * 2 ^ j)) [0..<Suc k]"
    using ih(3) n1 by (simp add: retry_waits_append map_upt_Suc mult.assoc del: upt_Suc)
  then show ?case using step ih(1,2) l1 left by (auto simp: mult.assoc)
qed

lemma send_product_route:
  "map_of product ''sku'' = Some sku \<Longrightarrow>
   send_product R E c product is_new w
     = retry_loop R E (route_method is_new) (route_url R c sku is_new) product 3 1 (c, w)"
  by (simp add: send_product_def request_with_retry_def MAX_RETRIES_def route_method_def route_url_def
      del: retry_loop.simps)

text \<open>A call of \<open>send_product\<close> issues at most 3 requests, whatever the replies, and
  touches neither the table nor the log.\<close>

lemma send_product_bound:
  assumes "send_product R E c product is_new w = (res, c', w')"
  shows "length (requests w') \<le> length (requests w) + 3 \<and> db w' = db w \<and> journal w' = journal w"
proof (cases "map_of product ''sku''")
  case None
  then show ?thesis using assms by (simp add: send_product_def)
next
  case (Some sku)
  then show ?thesis
    using assms retry_loop_bound[of R E "route_method is_new" "route_url R c sku is_new" product 3 1 c w res c' w']
    by (simp add: send_product_route del: retry_loop.simps)
qed

lemma retry_loop_settles:
  assumes "\<forall>j<k. reply E (length (requests w) + j) = Responds (rs j) \<and> status_code (rs j) = 429
                 \<and> sleep_error (wait_of R (rs j) (bk * 2 ^ j)) = None"
    and "k < left"
    and "reply E (length (requests w) + k) = Responds r" and "status_code r \<noteq> 429"
  shows "\<exists>c' w'. retry_loop R E m u b left bk (c, w)
             = (if 400 \<le> status_code r \<and> status_code r < 600 then Inl (HTTPError r) else Inr r, c', w')
           \<and> length (requests w') = length (requests w) + k + 1
           \<and> retry_waits (naps w') = retry_waits (naps w) @ map (\<lambda>j. wait_of R (rs j) (bk * 2 ^ j)) [0..<k]"
proof -
  from retry_loop_throttled[OF assms(1), of left m u b c] assms(2)
  obtain c1 w1 where t: "retry_loop R E m u b left bk (c, w) = retry_loop R E m u b (left - k) (bk * 2 ^ k) (c1, w1)"
    "length (requests w1) = length (requests w) + k"
    "retry_waits (naps w1) = retry_waits (naps w) @ map (\<lambda>j. wait_of R (rs j) (bk * 2 ^ j)) [0..<k]"
    by auto
  from assms(2) obtain left' where l: "left - k = Suc left'" by (cases "left - k") auto
  obtain c2 w2 where a: "attempt E m u b (c1, w1) = (c2, w2)" by (cases "attempt E m u b (c1, w1)")
  have l2: "length (requests w2) = Suc (length (requests w1))"
    and n2: "retry_waits (naps w2) = retry_waits (naps w1)"
    using attempt_requests[of E m u b c1 w1] attempt_waits[of E m u b c1 w1] a by simp_all
  have "retry_loop R E m u b (left - k) (bk * 2 ^ k) (c1, w1)
          = (if 400 \<le> status_code r \<and> status_code r < 600 then Inl (HTTPError r) else Inr r, c2, w2)"
    using a assms(3,4) t(2) l by (simp add: retry_loop_Suc del: retry_loop.simps)
  then show ?thesis using t l2 n2 by simp
qed

lemma retry_loop_exhausted:
  assumes "\<forall>j<left. reply E (length (requests w) + j) = Responds (rs j) \<and> status_code (rs j) = 429
                 \<and> sleep_error (wait_of R (rs j) (bk * 2 ^ j)) = None"
  shows "\<exists>c' w'. retry_loop R E m u b left bk (c, w) = (Inl (RuntimeError (rate_limit_message m u)), c', w')
           \<and> length (requests w') = length (requests w) + left
           \<and> retry_waits (naps w') = retry_waits (naps w) @ map (\<lambda>j. wait_of R (rs j) (bk * 2 ^ j)) [0..<left]"
  using retry_loop_throttled[OF assms, of left m u b c] by auto

text \<open>
  What holds of claim C2 in the code. A call of \<open>send_product\<close> issues at most 3
  requests. If the three requests are all answered with status 429 and
  \<^verbatim>\<open>time.sleep\<close> accepts the three waits, the call raises the \<^verbatim>\<open>RuntimeError\<close> whose
  message names the method and the URL, after exactly 3 requests. If, after \<open>k < 3\<close>
  throttled attempts whose waits \<^verbatim>\<open>time.sleep\<close> accepts, a request is answered with a
  successful status, that response is returned and no further request is issued.
\<close>

lemma send_attempts_when_sleep_returns:
  assumes "send_product R E c product is_new w = (res, c', w')"
  shows "length (requests w') \<le> length (requests w) + 3
    \<and> (map_of product ''sku'' = Some sku
          \<and> (\<forall>j<3. reply E (length (requests w) + j) = Responds (rs j) \<and> status_code (rs j) = 429
                 \<and> sleep_error (wait_of R (rs j) (2 ^ j)) = None)
        \<longrightarrow> res = Inl (RuntimeError (rate_limit_message (route_method is_new) (route_url R c sku is_new)))
            \<and> length (requests w') = length (requests w) + 3)
    \<and> (map_of product ''sku'' = Some sku \<and> k < 3
          \<and> (\<forall>j<k. reply E (length (requests w) + j) = Responds (rs j) \<and> status_code (rs j) = 429
                 \<and> sleep_error (wait_of R (rs j) (2 ^ j)) = None)
          \<and> reply E (length (requests w) + k) = Responds ok
          \<and> status_code ok \<noteq> 429 \<and> \<not> (400 \<le> status_code ok \<and> status_code ok < 600)
        \<longrightarrow> res = Inr ok \<and> length (requests w') = length (requests w) + k + 1)"
proof (intro conjI impI)
  show "length (requests w') \<le> length (requests w) + 3"
    using send_product_bound[OF assms] by simp
next
  assume h: "map_of product ''sku'' = Some sku
          \<and> (\<forall>j<3. reply E (length (requests w) + j) = Responds (rs j) \<and> status_code (rs j) = 429
                 \<and> sleep_error (wait_of R (rs j) (2 ^ j)) = None)"
  then have "\<forall>j<3. reply E (length (requests w) + j) = Responds (rs j) \<and> status_code (rs j) = 429
                 \<and> sleep_error (wait_of R (rs j) (1 * 2 ^ j)) = None" by simp
  from retry_loop_exhausted[OF this, of "route_method is_new" "route_url R c sku is_new" product c]
  show "res = Inl (RuntimeError (rate_limit_message (route_method is_new) (route_url R c sku is_new)))"
    and "length (requests w') = length (requests w) + 3"
    using assms h by (auto simp add: send_product_route simp del: retry_loop.simps)
next
  assume h: "map_of product ''sku'' = Some sku \<and> k < 3
          \<and> (\<forall>j<k. reply E (length (requests w) + j) = Responds (rs j) \<and> status_code (rs j) = 429
                 \<and> sleep_error (wait_of R (rs j) (2 ^ j)) = None)
          \<and> reply E (length (requests w) + k) = Responds ok
          \<and> status_code ok \<noteq> 429 \<and> \<not> (400 \<le> status_code ok \<and> status_code ok < 600)"
  then have a: "\<forall>j<k. reply E (length (requests w) + j) = Responds (rs j) \<and> status_code (rs j) = 429
                 \<and> sleep_error (wait_of R (rs j) (1 * 2 ^ j)) = None"
    and b: "k < 3" "reply E (length (requests w) + k) = Responds ok" "status_code ok \<noteq> 429" by simp_all
  from retry_loop_settles[OF a b, of "route_method is_new" "route_url R c sku is_new" product c]
  show "res = Inr ok" and "length (requests w') = length (requests w) + k + 1"
    using assms h by (auto simp add: send_product_route simp del: retry_loop.simps)
qed

lemma retry_loop_stops:
  assumes "\<forall>j<k. reply E (length (requests w) + j) = Responds (rs j) \<and> status_code (rs j) = 429
                 \<and> sleep_error (wait_of R (rs j) (bk * 2 ^ j)) = None"
    and "k < left"
    and "\<forall>r. reply E (length (requests w) + k) = Responds r \<longrightarrow> status_code r \<noteq> 429"
  shows "\<exists>res c' w'. retry_loop R E m u b left bk (c, w) = (res, c', w')
           \<and> length (requests w') = length (requests w) + k + 1
           \<and> retry_waits (naps w') = retry_waits (naps w) @ map (\<lambda>j. wait_of R (rs j) (bk * 2 ^ j)) [0..<k]"
proof (cases "reply E (length (requests w) + k)")
  case (Responds r)
  with assms(3) have "status_code r \<noteq> 429" by simp
  from retry_loop_settles[OF assms(1,2) Responds this, of m u b c] show ?thesis by blast
next
  case (Fails e)
  from retry_loop_throttled[OF assms(1), of left m u b c] assms(2)
  obtain c1 w1 where t: "retry_loop R E m u b left bk (c, w) = retry_loop R E m u b (left - k) (bk * 2 ^ k) (c1, w1)"
    "length (requests w1) = length (requests w) + k"
    "retry_waits (naps w1) = retry_waits (naps w) @ map (\<lambda>j. wait_of R (rs j) (bk * 2 ^ j)) [0..<k]"
    by auto
  from assms(2) obtain left' where l: "left - k = Suc left'" by (cases "left - k") auto
  obtain c2 w2 where a: "attempt E m u b (c1, w1) = (c2, w2)" by (cases "attempt E m u b (c1, w1)")
  have l2: "length (requests w2) = Suc (length (requests w1))"
    and n2: "retry_waits (naps w2) = retry_waits (naps w1)"
    using attempt_requests[of E m u b c1 w1] attempt_waits[of E m u b c1 w1] a by simp_all
  have "retry_loop R E m u b (left - k) (bk * 2 ^ k) (c1, w1) = (Inl (RequestException e), c2, w2)"
    using a Fails t(2) l by (simp add: retry_loop_Suc del: retry_loop.simps)
  then show ?thesis using t l2 n2 by simp
qed

text \<open>
  What holds of claim C4 in the code. When the first \<open>k \<le> 3\<close> requests of a call are
  answered with status 429 and \<^verbatim>\<open>time.sleep\<close> accepts the wait of each (and the call
  ends there: \<open>k = 3\<close>, or the next reply is not a 429 response), the retry loop sleeps
  exactly once per such response, and the \<open>j\<close>-th wait (from 0) is the value of the
  \<^verbatim>\<open>Retry-After\<close> header when the header is present and \<^verbatim>\<open>float\<close> parses it, and the
  backoff \<open>2\<^sup>j\<close> (1.0, 2.0, 4.0) otherwise. Two 429 responses without the header give
  the waits 1.0 and 2.0.
\<close>

lemma retry_waits_when_sleep_returns:
  assumes "send_product R E c product is_new w = (res, c', w')"
    and "map_of product ''sku'' = Some sku"
    and "k \<le> 3"
    and "\<forall>j<k. reply E (length (requests w) + j) = Responds (rs j) \<and> status_code (rs j) = 429
                 \<and> sleep_error (wait_of R (rs j) (2 ^ j)) = None"
    and "k = 3 \<or> (\<forall>r. reply E (length (requests w) + k) = Responds r \<longrightarrow> status_code r \<noteq> 429)"
  shows "retry_waits (naps w') = retry_waits (naps w) @
           map (\<lambda>j. case retry_after (rs j) of
                       None \<Rightarrow> Fin (2 ^ j)
                     | Some header \<Rightarrow> (case float_of_str R header of None \<Rightarrow> Fin (2 ^ j) | Some ra \<Rightarrow> ra)) [0..<k]"
proof -
  have w: "\<And>j. wait_of R (rs j) (1 * 2 ^ j) = (case retry_after (rs j) of
                       None \<Rightarrow> Fin (2 ^ j)
                     | Some header \<Rightarrow> (case float_of_str R header of None \<Rightarrow> Fin (2 ^ j) | Some ra \<Rightarrow> ra))"
    by (simp add: wait_of_def parse_retry_after_def split: option.splits)
  from assms(4) have th: "\<forall>j<k. reply E (length (requests w) + j) = Responds (rs j) \<and> status_code (rs j) = 429
                 \<and> sleep_error (wait_of R (rs j) (1 * 2 ^ j)) = None" by simp
  have "retry_waits (naps w') = retry_waits (naps w) @ map (\<lambda>j. wait_of R (rs j) (1 * 2 ^ j)) [0..<k]"
  proof (cases "k = 3")
    case True
    with th have "\<forall>j<3. reply E (length (requests w) + j) = Responds (rs j) \<and> status_code (rs j) = 429
                 \<and> sleep_error (wait_of R (rs j) (1 * 2 ^ j)) = None"
      by simp
    from retry_loop_exhausted[OF this, of "route_method is_new" "route_url R c sku is_new" product c]
    show ?thesis using assms(1,2) True by (auto simp add: send_product_route simp del: retry_loop.simps)
  next
    case False
    with assms(3,5) have b: "k < 3"
      "\<forall>r. reply E (length (requests w) + k) = Responds r \<longrightarrow> status_code r \<noteq> 429"
      by auto
    from retry_loop_stops[OF th b, of "route_method is_new" "route_url R c sku is_new" product c]
    show ?thesis using assms(1,2) by (auto simp add: send_product_route simp del: retry_loop.simps)
  qed
  then show ?thesis unfolding w .
qed

text \<open>
  Claim C7. When the first request of a call is answered with a status from 400 to 599
  other than 429, the call raises \<^verbatim>\<open>HTTPError\<close> carrying that response, having issued
  exactly 1 request and made no retry wait.
\<close>

theorem non_throttling_error_raises_at_once:
  assumes "map_of product ''sku'' = Some sku"
    and "reply E (length (requests w)) = Responds r"
    and "status_code r \<noteq> 429" and "400 \<le> status_code r" and "status_code r < 600"
  shows "\<exists>c' w'. send_product R E c product is_new w = (Inl (HTTPError r), c', w')
           \<and> length (requests w') = length (requests w) + 1
           \<and> retry_waits (naps w') = retry_waits (naps w)"
proof -
  obtain c1 w1 where a: "attempt E (route_method is_new) (route_url R c sku is_new) product (c, w) = (c1, w1)"
    by (cases "attempt E (route_method is_new) (route_url R c sku is_new) product (c, w)")
  have l1: "length (requests w1) = Suc (length (requests w))"
    and n1: "retry_waits (naps w1) = retry_waits (naps w)"
    using attempt_requests[of E "route_method is_new" "route_url R c sku is_new" product c w]
      attempt_waits[of E "route_method is_new" "route_url R c sku is_new" product c w] a by simp_all
  have "retry_loop R E (route_method is_new) (route_url R c sku is_new) product 3 1 (c, w)
          = (Inl (HTTPError r), c1, w1)"
    using a assms(2-5) by (simp add: retry_loop_Suc numeral_3_eq_3 del: retry_loop.simps)
  then have "send_product R E c product is_new w = (Inl (HTTPError r), c1, w1)"
    using assms(1) by (simp add: send_product_route del: retry_loop.simps)
  then show ?thesis using l1 n1 by simp
qed

text \<open>The same after \<open>k < 3\<close> throttled attempts whose waits \<^verbatim>\<open>time.sleep\<close> accepts:
  no request is issued and no wait is made after the response.\<close>

lemma error_after_throttling:
  assumes "map_of product ''sku'' = Some sku"
    and "k < 3"
    and "\<forall>j<k. reply E (length (requests w) + j) = Responds (rs j) \<and> status_code (rs j) = 429
                 \<and> sleep_error (wait_of R (rs j) (2 ^ j)) = None"
    and "reply E (length (requests w) + k) = Responds r"
    and "status_code r \<noteq> 429" and "400 \<le> status_code r" and "status_code r < 600"
  shows "\<exists>c' w'. send_product R E c product is_new w = (Inl (HTTPError r), c', w')
           \<and> length (requests w') = length (requests w) + k + 1
           \<and> length (retry_waits (naps w')) = length (retry_waits (naps w)) + k"
proof -
  from assms(3) have th: "\<forall>j<k. reply E (length (requests w) + j) = Responds (rs j) \<and> status_code (rs j) = 429
                 \<and> sleep_error (wait_of R (rs j) (1 * 2 ^ j)) = None" by simp
  from retry_loop_settles[OF th assms(2,4,5), of "route_method is_new" "route_url R c sku is_new" product c]
  obtain c' w' where h: "retry_loop R E (route_method is_new) (route_url R c sku is_new) product 3 1 (c, w)
        = (Inl (HTTPError r), c', w')"
     "length (requests w') = length (requests w) + k + 1"
     "retry_waits (naps w') = retry_waits (naps w) @ map (\<lambda>j. wait_of R (rs j) (1 * 2 ^ j)) [0..<k]"
    using assms(6,7) by auto
  show ?thesis
    by (intro exI[of _ c'] exI[of _ w']) (use h assms(1) in \<open>simp add: send_product_route del: retry_loop.simps\<close>)
qed

lemmas example_defs = example_settings_def example_product_def empty_world_def env_of_def too_many_def
  too_many_negative_def too_many_nan_def
  created_def server_error_def EshopClient_def RateLimiter_def RATE_LIMIT_def rstrip_slash_def
  send_product_def request_with_retry_def acquire_def parse_retry_after_def
  route_method_def route_url_def py_format_def

lemma MAX_RETRIES_Suc: "MAX_RETRIES = Suc (Suc (Suc 0))"
  by (simp add: MAX_RETRIES_def)

lemma rate_limit_message_eval:
  "rate_limit_message m u = ''API request '' @ m @ '' '' @ u @ '' failed after 3 retries due to rate limiting.''"
  by (simp add: rate_limit_message_def MAX_RETRIES_def decimal.simps hex_digit_def)

lemma example_float_of_str:
  "float_of_str example_runtime ''-1'' = Some (Fin (- 1))"
  "float_of_str example_runtime ''nan'' = Some NaN"
  by (simp_all add: example_runtime_def plain_float_of_str_def plain_int_of_str_def float_of_int_minus_1)

theorem non_throttling_error_raises_at_once_witness:
  "map_of example_product ''sku'' = Some (JStr ''SKU-001'')
   \<and> reply (env_of [Responds server_error]) 0 = Responds server_error
   \<and> status_code server_error = 500
   \<and> fst (send_product example_runtime (env_of [Responds server_error])
            (EshopClient example_settings) example_product True empty_world) = Inl (HTTPError server_error)
   \<and> length (requests (snd (snd (send_product example_runtime (env_of [Responds server_error])
            (EshopClient example_settings) example_product True empty_world)))) = 1
   \<and> retry_waits (naps (snd (snd (send_product example_runtime (env_of [Responds server_error])
            (EshopClient example_settings) example_product True empty_world)))) = []"
  using non_throttling_error_raises_at_once [of example_product "JStr ''SKU-001''"
      "env_of [Responds server_error]" empty_world server_error
      example_runtime "EshopClient example_settings" True]
  by (simp add: example_defs MAX_RETRIES_Suc)

text \<open>Two 429 responses without the header, then a success: the waits are 1.0 and
  2.0 and the third response is returned.\<close>

lemma backoff_example:
  "fst (send_product example_runtime (env_of [Responds too_many, Responds too_many, Responds created])
            (EshopClient example_settings) example_product True empty_world) = Inr created
   \<and> retry_waits (naps (snd (snd (send_product example_runtime
            (env_of [Responds too_many, Responds too_many, Responds created])
            (EshopClient example_settings) example_product True empty_world)))) = [Fin 1, Fin 2]"
  by (simp add: example_defs MAX_RETRIES_Suc sleep_error_backoff)

text \<open>Three 429 responses without the header: the waits are 1.0, 2.0 and 4.0 and the
  call raises the \<^verbatim>\<open>RuntimeError\<close>.\<close>

lemma exhaustion_example:
  "fst (send_product example_runtime (env_of [Responds too_many, Responds too_many, Responds too_many])
            (EshopClient example_settings) example_product True empty_world)
       = Inl (RuntimeError ''API request POST https://api.fake-eshop.cz/v1/products/ failed after 3 retries due to rate limiting.'')
   \<and> retry_waits (naps (snd (snd (send_product example_runtime
            (env_of [Responds too_many, Responds too_many, Responds too_many])
            (EshopClient example_settings) example_product True empty_world)))) = [Fin 1, Fin 2, Fin 4]"
  by (simp add: example_defs MAX_RETRIES_Suc sleep_error_backoff rate_limit_message_eval)

text \<open>
  Claim C2. The claim is that a call whose three attempts are all answered with status
  429 raises the \<^verbatim>\<open>RuntimeError\<close> that names the method and the URL. The code does not
  do that when the third 429 response carries a \<^verbatim>\<open>Retry-After\<close> header that
  \<^verbatim>\<open>float\<close> parses to a value \<^verbatim>\<open>time.sleep\<close> rejects: the loop sleeps after the third
  response too, before it would raise, and with the header \<^verbatim>\<open>-1\<close> (or \<^verbatim>\<open>nan\<close>) that
  call of \<^verbatim>\<open>time.sleep\<close> raises \<^verbatim>\<open>ValueError\<close>, which is what the call of
  \<open>send_product\<close> raises after its 3 requests.
\<close>

theorem third_throttle_bad_retry_after:
  "fst (send_product example_runtime (env_of [Responds too_many, Responds too_many, Responds too_many_negative])
            (EshopClient example_settings) example_product True empty_world) = Inl ValueError
   \<and> length (requests (snd (snd (send_product example_runtime
            (env_of [Responds too_many, Responds too_many, Responds too_many_negative])
            (EshopClient example_settings) example_product True empty_world)))) = 3
   \<and> retry_waits (naps (snd (snd (send_product example_runtime
            (env_of [Responds too_many, Responds too_many, Responds too_many_negative])
            (EshopClient example_settings) example_product True empty_world)))) = [Fin 1, Fin 2]
   \<and> fst (send_product example_runtime (env_of [Responds too_many, Responds too_many, Responds too_many_nan])
            (EshopClient example_settings) example_product True empty_world) = Inl ValueError"
  by (simp add: example_defs MAX_RETRIES_Suc sleep_error_backoff sleep_error_invalid example_float_of_str)

text \<open>
  Claim C4. The claim is that on a 429 response the wait before the next attempt is the
  value of the \<^verbatim>\<open>Retry-After\<close> header when it is present and numeric, and the backoff
  otherwise. The code does not do that for a header that \<^verbatim>\<open>float\<close> parses to a value
  \<^verbatim>\<open>time.sleep\<close> rejects. With the header \<^verbatim>\<open>nan\<close>, which is not a number, the wait
  is not the backoff 1.0: \<^verbatim>\<open>time.sleep(nan)\<close> raises \<^verbatim>\<open>ValueError\<close> and the call ends
  after 1 request, with no wait and no next attempt, although the next reply would be a
  success. The same happens with the header \<^verbatim>\<open>-1\<close>.
\<close>

theorem bad_retry_after_ends_call:
  "parse_retry_after example_runtime too_many_nan = Some NaN
   \<and> fst (send_product example_runtime (env_of [Responds too_many_nan, Responds created])
            (EshopClient example_settings) example_product True empty_world) = Inl ValueError
   \<and> length (requests (snd (snd (send_product example_runtime
            (env_of [Responds too_many_nan, Responds created])
            (EshopClient example_settings) example_product True empty_world)))) = 1
   \<and> retry_waits (naps (snd (snd (send_product example_runtime
            (env_of [Responds too_many_nan, Responds created])
            (EshopClient example_settings) example_product True empty_world)))) = []
   \<and> parse_retry_after example_runtime too_many_negative = Some (Fin (- 1))
   \<and> fst (send_product example_runtime (env_of [Responds too_many_negative, Responds created])
            (EshopClient example_settings) example_product True empty_world) = Inl ValueError
   \<and> length (requests (snd (snd (send_product example_runtime
            (env_of [Responds too_many_negative, Responds created])
            (EshopClient example_settings) example_product True empty_world)))) = 1
   \<and> retry_waits (naps (snd (snd (send_product example_runtime
            (env_of [Responds too_many_negative, Responds created])
            (EshopClient example_settings) example_product True empty_world)))) = []"
  by (simp add: example_defs MAX_RETRIES_Suc sleep_error_invalid example_float_of_str)

section \<open>Properties of the synchronisation task\<close>

lemma sync_one_outcome:
  assumes "sync_one R E product (c, w, s) = Inr (c', w', s')"
  shows "\<exists>sku h d. map_of product ''sku'' = Some sku \<and> compute_hash R product = Inr h
    \<and> journal w' = journal w @ [d] \<and> diag_sku d = sku
    \<and> sent s' = sent s + (if is_synced d then 1 else 0)
    \<and> skipped s' = skipped s + (if is_unchanged d then 1 else 0)
    \<and> errors s' = errors s + (if is_failed d then 1 else 0)
    \<and> (s' = s\<lparr>sent := sent s + 1\<rparr> \<or> s' = s\<lparr>skipped := skipped s + 1\<rparr>
          \<or> s' = s\<lparr>errors := errors s + 1\<rparr>)
    \<and> (\<forall>k. (row_key R sku = Some k \<longrightarrow> \<not> is_synced d) \<longrightarrow> db w' k = db w k)
    \<and> (\<not> is_failed d \<longrightarrow> (\<exists>k row. row_key R sku = Some k \<and> db w' k = Some row \<and> content_hash row = h))"
proof -
  from assms obtain sku where sku: "map_of product ''sku'' = Some sku"
    by (cases "map_of product ''sku''") (auto simp add: sync_one_def)
  from assms sku obtain h where h: "compute_hash R product = Inr h"
    by (cases "compute_hash R product") (auto simp add: sync_one_def)
  let ?state = "objects_get R w sku"
  show ?thesis
  proof (cases "\<exists>row. ?state = Some row \<and> content_hash row = h")
    case True
    then obtain row where row: "?state = Some row" "content_hash row = h" by blast
    then obtain k where k: "row_key R sku = Some k" "db w k = Some row"
      by (auto simp add: objects_get_def split: option.splits)
    from assms sku h row have r: "c' = c" "w' = w\<lparr>journal := journal w @ [Unchanged sku]\<rparr>"
      "s' = s\<lparr>skipped := skipped s + 1\<rparr>"
      by (simp_all add: sync_one_def)
    show ?thesis
      by (intro exI[of _ sku] exI[of _ h] exI[of _ "Unchanged sku"]) (use sku h r k row in auto)
  next
    case False
    then have nf: "\<not> (case ?state of None \<Rightarrow> False | Some row \<Rightarrow> content_hash row = h)"
      by (auto split: option.splits)
    obtain res c1 w1 where sp: "send_product R E c product (?state = None) w = (res, c1, w1)"
      by (cases "send_product R E c product (?state = None) w") auto
    from send_product_bound[OF sp] have fr: "db w1 = db w" "journal w1 = journal w" by simp_all
    show ?thesis
    proof (cases res)
      case (Inl exc)
      with assms sku h nf sp have r: "w' = w1\<lparr>journal := journal w1 @ [SyncFailed sku exc]\<rparr>"
        "s' = s\<lparr>errors := errors s + 1\<rparr>"
        by (simp_all add: sync_one_def Let_def)
      show ?thesis
        by (intro exI[of _ sku] exI[of _ h] exI[of _ "SyncFailed sku exc"]) (use sku h r fr in auto)
    next
      case (Inr resp)
      let ?row = "\<lparr>content_hash = h, synced_as_new = (?state = None)\<rparr>"
      show ?thesis
      proof (cases "save R E sku ?state ?row w1")
        case (Inl exc)
        with assms sku h nf sp Inr have r: "w' = w1\<lparr>journal := journal w1 @ [SyncFailed sku exc]\<rparr>"
          "s' = s\<lparr>errors := errors s + 1\<rparr>"
          by (simp_all add: sync_one_def Let_def)
        show ?thesis
          by (intro exI[of _ sku] exI[of _ h] exI[of _ "SyncFailed sku exc"]) (use sku h r fr in auto)
      next
        case sv: (Inr w2)
        then obtain k where k: "row_key R sku = Some k" "w2 = w1\<lparr>db := (db w1)(k \<mapsto> ?row)\<rparr>"
          by (auto simp add: save_def split: option.splits if_splits)
        from assms sku h nf sp Inr sv have r: "w' = w2\<lparr>journal := journal w2 @ [Synced sku (?state = None)]\<rparr>"
          "s' = s\<lparr>sent := sent s + 1\<rparr>"
          by (simp_all add: sync_one_def Let_def)
        show ?thesis
          by (intro exI[of _ sku] exI[of _ h] exI[of _ "Synced sku (?state = None)"])
            (use sku h r fr k in auto)
      qed
    qed
  qed
qed

text \<open>A product whose sku is null is sent as new, and the save that follows raises:
  the product is counted in \<open>errors\<close> after a send that succeeded. A number and the
  string of its digits are filed under the same text.\<close>

lemma null_sku_save_fails:
  assumes "map_of product ''sku'' = Some JNull" and "compute_hash R product = Inr h"
    and "send_product R E c product True w = (Inr resp, c1, w1)"
  shows "sync_one R E product (c, w, s)
           = Inr (c1, w1\<lparr>journal := journal w1 @ [SyncFailed JNull IntegrityError]\<rparr>,
                  s\<lparr>errors := errors s + 1\<rparr>)"
  using assms by (simp add: sync_one_def objects_get_def row_key_def save_def Let_def)

lemma number_and_text_share_row:
  "row_key example_runtime (JInt 5) = Some ''5'' \<and> row_key example_runtime (JStr ''5'') = Some ''5''"
  by (simp add: row_key_def py_format_def example_runtime_def plain_str_def show_int_def
      decimal.simps hex_digit_def)

lemma sync_one_total:
  assumes "map_of product ''sku'' = Some sku" and "compute_hash R product = Inr h"
  shows "\<exists>st'. sync_one R E product (c, w, s) = Inr st'"
  using assms by (auto simp add: sync_one_def Let_def split: prod.splits sum.splits)

lemma diag_partition:
  "length (filter is_synced os) + length (filter is_unchanged os) + length (filter is_failed os) = length os"
proof (induction os)
  case Nil
  then show ?case by simp
next
  case (Cons d os)
  then show ?case by (cases d) simp_all
qed

lemma sync_loop_outcomes:
  assumes "sync_loop R E ps (c, w, s) = Inr (c', w', s')"
  shows "\<exists>os. journal w' = journal w @ os \<and> length os = length ps
    \<and> sent s' = sent s + int (length (filter is_synced os))
    \<and> skipped s' = skipped s + int (length (filter is_unchanged os))
    \<and> errors s' = errors s + int (length (filter is_failed os))
    \<and> (\<forall>j<length ps. map_of (ps ! j) ''sku'' = Some (diag_sku (os ! j)))
    \<and> (\<forall>k. (\<forall>j<length ps. row_key R (diag_sku (os ! j)) = Some k \<longrightarrow> \<not> is_synced (os ! j))
            \<longrightarrow> db w' k = db w k)"
  using assms
proof (induction ps arbitrary: c w s)
  case Nil
  then show ?case by simp
next
  case (Cons p ps)
  from Cons.prems obtain c1 w1 s1 where one: "sync_one R E p (c, w, s) = Inr (c1, w1, s1)"
    and rest: "sync_loop R E ps (c1, w1, s1) = Inr (c', w', s')"
    by (cases "sync_one R E p (c, w, s)") auto
  from sync_one_outcome[OF one]
  obtain sku d where sku: "map_of p ''sku'' = Some sku"
    and d: "journal w1 = journal w @ [d]" "diag_sku d = sku"
      "sent s1 = sent s + (if is_synced d then 1 else 0)"
      "skipped s1 = skipped s + (if is_unchanged d then 1 else 0)"
      "errors s1 = errors s + (if is_failed d then 1 else 0)"
      "\<forall>k. (row_key R sku = Some k \<longrightarrow> \<not> is_synced d) \<longrightarrow> db w1 k = db w k"
    by blast
  from Cons.IH[OF rest] obtain os where os: "journal w' = journal w1 @ os" "length os = length ps"
    "sent s' = sent s1 + int (length (filter is_synced os))"
    "skipped s' = skipped s1 + int (length (filter is_unchanged os))"
    "errors s' = errors s1 + int (length (filter is_failed os))"
    "\<forall>j<length ps. map_of (ps ! j) ''sku'' = Some (diag_sku (os ! j))"
    "\<forall>k. (\<forall>j<length ps. row_key R (diag_sku (os ! j)) = Some k \<longrightarrow> \<not> is_synced (os ! j))
          \<longrightarrow> db w' k = db w1 k"
    by blast
  let ?os = "d # os"
  have 1: "journal w' = journal w @ ?os" using os(1) d(1) by simp
  have 2: "length ?os = length (p # ps)" using os(2) by simp
  have 3: "sent s' = sent s + int (length (filter is_synced ?os))" using os(3) d(3) by simp
  have 4: "skipped s' = skipped s + int (length (filter is_unchanged ?os))" using os(4) d(4) by simp
  have 5: "errors s' = errors s + int (length (filter is_failed ?os))" using os(5) d(5) by simp
  have 6: "\<forall>j<length (p # ps). map_of ((p # ps) ! j) ''sku'' = Some (diag_sku (?os ! j))"
  proof (intro allI impI)
    fix j assume "j < length (p # ps)"
    then show "map_of ((p # ps) ! j) ''sku'' = Some (diag_sku (?os ! j))"
      using os(6) sku d(2) by (cases j) simp_all
  qed
  have 7: "\<forall>k. (\<forall>j<length (p # ps). row_key R (diag_sku (?os ! j)) = Some k \<longrightarrow> \<not> is_synced (?os ! j))
             \<longrightarrow> db w' k = db w k"
  proof (intro allI impI)
    fix k assume h: "\<forall>j<length (p # ps). row_key R (diag_sku (?os ! j)) = Some k \<longrightarrow> \<not> is_synced (?os ! j)"
    then have "row_key R (diag_sku (?os ! 0)) = Some k \<longrightarrow> \<not> is_synced (?os ! 0)" by blast
    then have a: "db w1 k = db w k" using d(2,6) by auto
    have "\<forall>j<length ps. row_key R (diag_sku (os ! j)) = Some k \<longrightarrow> \<not> is_synced (os ! j)"
    proof (intro allI impI)
      fix j assume "j < length ps" "row_key R (diag_sku (os ! j)) = Some k"
      then show "\<not> is_synced (os ! j)" using h[rule_format, of "Suc j"] by simp
    qed
    with os(7) have "db w' k = db w1 k" by blast
    with a show "db w' k = db w k" by simp
  qed
  show ?case by (intro exI[of _ ?os]) (use 1 2 3 4 5 6 7 in blast)
qed

lemma transform_product_sku:
  "transform_product R raw = Inr (Some p) \<Longrightarrow>
   map_of p ''sku'' = Some (py_get_default raw ''id'' (JStr ''<unknown>''))"
  by (auto simp add: transform_product_def Let_def split: if_splits option.splits sum.splits)

lemma transform_loop_sku:
  "transform_loop R result raws = Inr ps \<Longrightarrow> \<forall>p \<in> set result. map_of p ''sku'' \<noteq> None \<Longrightarrow>
   \<forall>p \<in> set ps. map_of p ''sku'' \<noteq> None"
proof (induction raws arbitrary: result)
  case Nil
  then show ?case by simp
next
  case (Cons raw raws)
  show ?case
  proof (cases "transform_product R raw")
    case (Inl e)
    with Cons.prems show ?thesis by simp
  next
    case (Inr t)
    show ?thesis
    proof (cases t)
      case None
      with Cons Inr show ?thesis by simp
    next
      case (Some transformed)
      with Inr have "map_of transformed ''sku'' \<noteq> None" using transform_product_sku by simp
      with Cons.prems(2) have "\<forall>p \<in> set (result @ [transformed]). map_of p ''sku'' \<noteq> None" by simp
      moreover from Cons.prems(1) Inr Some have "transform_loop R (result @ [transformed]) raws = Inr ps" by simp
      ultimately show ?thesis using Cons.IH by blast
    qed
  qed
qed

lemma load_and_transform_sku:
  "load_and_transform R raws = Inr ps \<Longrightarrow> \<forall>p \<in> set ps. map_of p ''sku'' \<noteq> None"
  using transform_loop_sku[of R "[]"]
  by (auto simp add: load_and_transform_def split: sum.splits)

lemma sync_loop_total:
  "\<forall>p \<in> set ps. map_of p ''sku'' \<noteq> None \<and> (\<exists>h. compute_hash R p = Inr h)
   \<Longrightarrow> \<exists>st'. sync_loop R E ps st = Inr st'"
proof (induction ps arbitrary: st)
  case Nil
  obtain c w s where "st = (c, w, s)" using prod_cases3 by blast
  then show ?case by simp
next
  case (Cons p ps)
  obtain c w s where st: "st = (c, w, s)" using prod_cases3 by blast
  from Cons.prems obtain sku h where "map_of p ''sku'' = Some sku" "compute_hash R p = Inr h" by auto
  from sync_one_total[OF this, of E c w s] obtain st1 where "sync_one R E p st = Inr st1"
    using st by blast
  then show ?case using Cons by simp
qed

lemma sync_loop_counts:
  assumes "sync_loop R E ps (c, w, s) = Inr (c', w', s')"
  shows "sent s' + skipped s' + errors s' = sent s + skipped s + errors s + int (length ps)"
    and "sent s \<le> sent s'" and "skipped s \<le> skipped s'" and "errors s \<le> errors s'"
proof -
  from sync_loop_outcomes[OF assms] obtain os where os: "length os = length ps"
    "sent s' = sent s + int (length (filter is_synced os))"
    "skipped s' = skipped s + int (length (filter is_unchanged os))"
    "errors s' = errors s + int (length (filter is_failed os))"
    by blast
  show "sent s' + skipped s' + errors s' = sent s + skipped s + errors s + int (length ps)"
    using os diag_partition[of os] by simp
  show "sent s \<le> sent s'" "skipped s \<le> skipped s'" "errors s \<le> errors s'"
    using os by simp_all
qed

text \<open>
  Claim C10. Every summary the task returns is the summary of a run over the products
  \<open>ps\<close> that \<open>load_and_transform\<close> yields, and its three counters, none of them negative,
  add up to the number of these products. Each product whose iteration completes
  increments exactly one of the three counters by one.
\<close>

theorem summary_counts_every_product:
  "(sync_products_task R E cfg raws w = Inr (s, w') \<longrightarrow>
      (\<exists>ps. load_and_transform R raws = Inr ps \<and> sent s + skipped s + errors s = int (length ps)
         \<and> 0 \<le> sent s \<and> 0 \<le> skipped s \<and> 0 \<le> errors s))
   \<and> (sync_one R E product (c, w0, s0) = Inr (c1, w1, s1) \<longrightarrow>
        s1 = s0\<lparr>sent := sent s0 + 1\<rparr> \<or> s1 = s0\<lparr>skipped := skipped s0 + 1\<rparr>
          \<or> s1 = s0\<lparr>errors := errors s0 + 1\<rparr>)"
proof (intro conjI impI)
  assume t: "sync_products_task R E cfg raws w = Inr (s, w')"
  then obtain ps where l: "load_and_transform R raws = Inr ps"
    by (auto simp add: sync_products_task_def split: sum.splits)
  with t obtain c1 where "sync_loop R E ps (EshopClient cfg, w, \<lparr>sent = 0, skipped = 0, errors = 0\<rparr>) = Inr (c1, w', s)"
    by (auto simp add: sync_products_task_def split: sum.splits)
  from sync_loop_counts[OF this] l
  show "\<exists>ps. load_and_transform R raws = Inr ps \<and> sent s + skipped s + errors s = int (length ps)
         \<and> 0 \<le> sent s \<and> 0 \<le> skipped s \<and> 0 \<le> errors s"
    by simp
next
  assume "sync_one R E product (c, w0, s0) = Inr (c1, w1, s1)"
  from sync_one_outcome[OF this]
  show "s1 = s0\<lparr>sent := sent s0 + 1\<rparr> \<or> s1 = s0\<lparr>skipped := skipped s0 + 1\<rparr>
          \<or> s1 = s0\<lparr>errors := errors s0 + 1\<rparr>"
    by blast
qed

text \<open>The task returns a summary whenever \<open>load_and_transform\<close> returns and
  \<open>compute_hash\<close> returns for each of the products: inside the loop, only the exception
  of \<open>compute_hash\<close> escapes.\<close>

lemma task_returns:
  assumes "load_and_transform R raws = Inr ps" and "\<forall>p \<in> set ps. \<exists>h. compute_hash R p = Inr h"
  shows "\<exists>s w'. sync_products_task R E cfg raws w = Inr (s, w')"
proof -
  from load_and_transform_sku[OF assms(1)] assms(2)
  have "\<forall>p \<in> set ps. map_of p ''sku'' \<noteq> None \<and> (\<exists>h. compute_hash R p = Inr h)" by blast
  from sync_loop_total[OF this, of E "(EshopClient cfg, w, \<lparr>sent = 0, skipped = 0, errors = 0\<rparr>)"]
  obtain c1 w1 s1 where "sync_loop R E ps (EshopClient cfg, w, \<lparr>sent = 0, skipped = 0, errors = 0\<rparr>) = Inr (c1, w1, s1)"
    by (metis prod_cases3)
  then show ?thesis using assms(1) by (simp add: sync_products_task_def)
qed

text \<open>The exception of \<open>compute_hash\<close> does escape: for a product whose title is a lone
  surrogate, the iteration raises \<^verbatim>\<open>UnicodeEncodeError\<close>.\<close>

lemma surrogate_title_escapes:
  "sync_one example_runtime E
     [(''sku'', JStr ''SKU-001''), (''title'', JStr [CHR 0xED, CHR 0xA0, CHR 0x80]),
      (''price'', JFloat (Fin 0)), (''stock'', JInt 0), (''color'', JStr ''N/A'')] (c, w, s)
   = Inl UnicodeEncodeError"
  by (simp add: sync_one_def compute_hash_def example_runtime_def cents_repr_def Let_def json_str_def
      escape_char_def show_int_def decimal.simps hex_digit_def)

lemmas transformer_defs = load_erp_data_def load_and_transform_def record_key_def
      transform_product_def py_get_def py_get_default_def py_or_def py_values_def
      py_method_get_def parse_stock_value_def price_with_vat_1

lemma example_batch_products:
  "load_and_transform R example_batch = Inr [example_product_1, example_product_3]"
  by (simp add: example_batch_def example_product_1_def example_product_3_def transformer_defs Let_def)

lemma example_product_skus:
  "map_of example_product_1 ''sku'' = Some (JStr ''SKU-001'')"
  "map_of example_product_3 ''sku'' = Some (JStr ''SKU-003'')"
  by (simp_all add: example_product_1_def example_product_3_def)

lemma example_dumps_3:
  "dumps example_runtime (JObj example_product_3)
   = [CHR ''{'', CHR 0x22] @ ''color'' @ [CHR 0x22] @ '': '' @ [CHR 0x22] @ ''N/A'' @ [CHR 0x22] @ '', ''
     @ [CHR 0x22] @ ''price'' @ [CHR 0x22] @ '': 1.21, ''
     @ [CHR 0x22] @ ''sku'' @ [CHR 0x22] @ '': '' @ [CHR 0x22] @ ''SKU-003'' @ [CHR 0x22] @ '', ''
     @ [CHR 0x22] @ ''stock'' @ [CHR 0x22] @ '': 0, ''
     @ [CHR 0x22] @ ''title'' @ [CHR 0x22] @ '': '' @ [CHR 0x22] @ ''B'' @ [CHR 0x22] @ ''}''"
  by (simp add: example_product_3_def example_runtime_def cents_repr_def Let_def json_str_def
      escape_char_def show_int_def decimal.simps hex_digit_def float_1_21_def)

lemma example_compute_hash_3: "compute_hash example_runtime example_product_3 = Inr example_hash_3"
proof -
  have p: "\<not> unprintable example_runtime (JObj example_product_3)"
    by (simp add: example_product_3_def example_runtime_def decimal.simps)
  have e: "\<not> has_surrogate (dumps example_runtime (JObj example_product_3))"
    unfolding example_dumps_3 by simp
  show ?thesis
    unfolding compute_hash_def Let_def example_hash_3_def example_sha256
    using p e by (simp del: dumps.simps unprintable.simps)
qed

lemma unknown_dumps_a:
  "dumps example_runtime (JObj unknown_product_a)
   = [CHR ''{'', CHR 0x22] @ ''color'' @ [CHR 0x22] @ '': '' @ [CHR 0x22] @ ''N/A'' @ [CHR 0x22] @ '', ''
     @ [CHR 0x22] @ ''price'' @ [CHR 0x22] @ '': 1.21, ''
     @ [CHR 0x22] @ ''sku'' @ [CHR 0x22] @ '': '' @ [CHR 0x22] @ ''<unknown>'' @ [CHR 0x22] @ '', ''
     @ [CHR 0x22] @ ''stock'' @ [CHR 0x22] @ '': 0, ''
     @ [CHR 0x22] @ ''title'' @ [CHR 0x22] @ '': '' @ [CHR 0x22] @ ''A'' @ [CHR 0x22] @ ''}''"
  by (simp add: unknown_product_a_def example_runtime_def cents_repr_def Let_def json_str_def
      escape_char_def show_int_def decimal.simps hex_digit_def float_1_21_def)

lemma unknown_dumps_b:
  "dumps example_runtime (JObj unknown_product_b)
   = [CHR ''{'', CHR 0x22] @ ''color'' @ [CHR 0x22] @ '': '' @ [CHR 0x22] @ ''N/A'' @ [CHR 0x22] @ '', ''
     @ [CHR 0x22] @ ''price'' @ [CHR 0x22] @ '': 1.21, ''
     @ [CHR 0x22] @ ''sku'' @ [CHR 0x22] @ '': '' @ [CHR 0x22] @ ''<unknown>'' @ [CHR 0x22] @ '', ''
     @ [CHR 0x22] @ ''stock'' @ [CHR 0x22] @ '': 0, ''
     @ [CHR 0x22] @ ''title'' @ [CHR 0x22] @ '': '' @ [CHR 0x22] @ ''B'' @ [CHR 0x22] @ ''}''"
  by (simp add: unknown_product_b_def example_runtime_def cents_repr_def Let_def json_str_def
      escape_char_def show_int_def decimal.simps hex_digit_def float_1_21_def)

lemma unknown_compute_hash_a: "compute_hash example_runtime unknown_product_a = Inr unknown_hash_a"
proof -
  have p: "\<not> unprintable example_runtime (JObj unknown_product_a)"
    by (simp add: unknown_product_a_def example_runtime_def decimal.simps)
  have e: "\<not> has_surrogate (dumps example_runtime (JObj unknown_product_a))"
    unfolding unknown_dumps_a by simp
  show ?thesis
    unfolding compute_hash_def Let_def unknown_hash_a_def example_sha256
    using p e by (simp del: dumps.simps unprintable.simps)
qed

lemma unknown_compute_hash_b: "compute_hash example_runtime unknown_product_b = Inr unknown_hash_b"
proof -
  have p: "\<not> unprintable example_runtime (JObj unknown_product_b)"
    by (simp add: unknown_product_b_def example_runtime_def decimal.simps)
  have e: "\<not> has_surrogate (dumps example_runtime (JObj unknown_product_b))"
    unfolding unknown_dumps_b by simp
  show ?thesis
    unfolding compute_hash_def Let_def unknown_hash_b_def example_sha256
    using p e by (simp del: dumps.simps unprintable.simps)
qed

lemma unknown_hashes_differ: "unknown_hash_a \<noteq> unknown_hash_b"
  unfolding unknown_hash_a_def unknown_hash_b_def unknown_dumps_a unknown_dumps_b
  by (simp add: tail_digest_def hexdigest_def hex_digit_def upt_rec)

lemmas run_defs = sync_products_task_def sync_one_def objects_get_def save_def row_key_def py_format_def
      summary_of_def world_after_def example_settings_def empty_world_def env_of_def created_def
      server_error_def EshopClient_def RateLimiter_def RATE_LIMIT_def rstrip_slash_def
      send_product_def request_with_retry_def acquire_def MAX_RETRIES_Suc

theorem summary_counts_every_product_witness:
  "load_and_transform example_runtime example_batch = Inr [example_product_1, example_product_3]
   \<and> summary_of (sync_products_task example_runtime (env_of [Responds created, Responds server_error])
         example_settings example_batch empty_world) = Some \<lparr>sent = 1, skipped = 0, errors = 1\<rparr>
   \<and> (1::int) + 0 + 1 = int (length [example_product_1, example_product_3])
   \<and> snd (snd (projr (sync_one example_runtime (env_of [Responds created, Responds server_error])
         example_product_1 (EshopClient example_settings, empty_world, \<lparr>sent = 0, skipped = 0, errors = 0\<rparr>))))
       = \<lparr>sent = 1, skipped = 0, errors = 0\<rparr>"
  using summary_counts_every_product [of example_runtime "env_of [Responds created, Responds server_error]"
      example_settings example_batch empty_world
      "\<lparr>sent = 1, skipped = 0, errors = 1\<rparr>"
      "world_after empty_world (sync_products_task example_runtime (env_of [Responds created, Responds server_error])
         example_settings example_batch empty_world)"
      example_product_1 "EshopClient example_settings" empty_world
      "\<lparr>sent = 0, skipped = 0, errors = 0\<rparr>"
      "fst (projr (sync_one example_runtime (env_of [Responds created, Responds server_error])
         example_product_1 (EshopClient example_settings, empty_world, \<lparr>sent = 0, skipped = 0, errors = 0\<rparr>)))"
      "fst (snd (projr (sync_one example_runtime (env_of [Responds created, Responds server_error])
         example_product_1 (EshopClient example_settings, empty_world, \<lparr>sent = 0, skipped = 0, errors = 0\<rparr>))))"
      "snd (snd (projr (sync_one example_runtime (env_of [Responds created, Responds server_error])
         example_product_1 (EshopClient example_settings, empty_world, \<lparr>sent = 0, skipped = 0, errors = 0\<rparr>))))"]
  by (simp add: example_batch_products example_product_skus example_compute_hash_1 example_compute_hash_3
      run_defs Let_def)

lemma sync_loop_first_run:
  assumes "sync_loop R E ps (c, w, s) = Inr (c', w', s')"
    and "errors s' = errors s"
    and "distinct (map (\<lambda>p. row_key R (py_get p ''sku'')) ps)"
  shows "\<forall>p \<in> set ps. \<exists>h row. compute_hash R p = Inr h
           \<and> objects_get R w' (py_get p ''sku'') = Some row \<and> content_hash row = h"
  using assms
proof (induction ps arbitrary: c w s)
  case Nil
  then show ?case by simp
next
  case (Cons p ps)
  from Cons.prems(1) obtain c1 w1 s1 where one: "sync_one R E p (c, w, s) = Inr (c1, w1, s1)"
    and rest: "sync_loop R E ps (c1, w1, s1) = Inr (c', w', s')"
    by (cases "sync_one R E p (c, w, s)") auto
  from sync_one_outcome[OF one]
  obtain sku h d where sku: "map_of p ''sku'' = Some sku" and h: "compute_hash R p = Inr h"
    and e: "errors s1 = errors s + (if is_failed d then 1 else 0)"
    and st: "\<not> is_failed d \<longrightarrow> (\<exists>k row. row_key R sku = Some k \<and> db w1 k = Some row \<and> content_hash row = h)"
    by blast
  from sku have pg: "py_get p ''sku'' = sku" by (simp add: py_get_def)
  from sync_loop_counts(4)[OF rest] e Cons.prems(2)
  have e1: "errors s1 = errors s" and nf: "\<not> is_failed d"
    by (auto split: if_splits)
  with st obtain k row where k: "row_key R sku = Some k" and row: "db w1 k = Some row" "content_hash row = h"
    by blast
  have d: "distinct (map (\<lambda>p. row_key R (py_get p ''sku'')) ps)"
    and notin: "Some k \<notin> (\<lambda>p. row_key R (py_get p ''sku'')) ` set ps"
    using Cons.prems(3) pg k by auto
  from sync_loop_outcomes[OF rest] obtain os where os:
    "\<forall>j<length ps. map_of (ps ! j) ''sku'' = Some (diag_sku (os ! j))"
    "\<forall>k. (\<forall>j<length ps. row_key R (diag_sku (os ! j)) = Some k \<longrightarrow> \<not> is_synced (os ! j))
          \<longrightarrow> db w' k = db w1 k"
    by blast
  have "\<forall>j<length ps. row_key R (diag_sku (os ! j)) \<noteq> Some k"
  proof (intro allI impI)
    fix j assume j: "j < length ps"
    with os(1) have "py_get (ps ! j) ''sku'' = diag_sku (os ! j)" by (simp add: py_get_def)
    moreover from j have "ps ! j \<in> set ps" by simp
    ultimately show "row_key R (diag_sku (os ! j)) \<noteq> Some k" using notin by force
  qed
  with os(2) have "db w' k = db w1 k" by blast
  with row k pg h have here: "\<exists>h row. compute_hash R p = Inr h
           \<and> objects_get R w' (py_get p ''sku'') = Some row \<and> content_hash row = h"
    by (simp add: objects_get_def)
  from Cons.IH[OF rest _ d] Cons.prems(2) e1
  have "\<forall>p \<in> set ps. \<exists>h row. compute_hash R p = Inr h
           \<and> objects_get R w' (py_get p ''sku'') = Some row \<and> content_hash row = h"
    by simp
  with here show ?case by simp
qed

lemma objects_get_journal: "objects_get R (w\<lparr>journal := j\<rparr>) sku = objects_get R w sku"
  by (simp add: objects_get_def split: option.splits)

lemma sync_loop_all_unchanged:
  assumes "\<forall>p \<in> set ps. map_of p ''sku'' \<noteq> None
             \<and> (\<exists>h row. compute_hash R p = Inr h
                   \<and> objects_get R w (py_get p ''sku'') = Some row \<and> content_hash row = h)"
  shows "sync_loop R E ps (c, w, s)
           = Inr (c, w\<lparr>journal := journal w @ map (\<lambda>p. Unchanged (py_get p ''sku'')) ps\<rparr>,
                  s\<lparr>skipped := skipped s + int (length ps)\<rparr>)"
  using assms
proof (induction ps arbitrary: w s)
  case Nil
  then show ?case by simp
next
  case (Cons p ps)
  from Cons.prems obtain sku h row where sku: "map_of p ''sku'' = Some sku"
    and h: "compute_hash R p = Inr h"
    and row: "objects_get R w sku = Some row" "content_hash row = h"
    by (auto simp add: py_get_def)
  let ?w1 = "w\<lparr>journal := journal w @ [Unchanged sku]\<rparr>"
  let ?s1 = "s\<lparr>skipped := skipped s + 1\<rparr>"
  have one: "sync_one R E p (c, w, s) = Inr (c, ?w1, ?s1)"
    using sku h row by (simp add: sync_one_def)
  have "\<forall>p \<in> set ps. map_of p ''sku'' \<noteq> None
             \<and> (\<exists>h row. compute_hash R p = Inr h
                   \<and> objects_get R ?w1 (py_get p ''sku'') = Some row \<and> content_hash row = h)"
    using Cons.prems by (simp add: objects_get_journal)
  from Cons.IH[OF this, of ?s1] one sku show ?case by (simp add: py_get_def)
qed

text \<open>
  Idempotence where the skus are distinct. Let a first run return with \<open>errors = 0\<close>
  (every send and every save succeeded), and let no two products of the batch have the
  same sku as the database files it (the same text, or both null). Then a second run
  over the same source data (in any environment) returns \<open>sent = 0\<close> and \<open>errors = 0\<close>
  with every product skipped: the stored hash of every product equals its recomputed
  hash, and the run issues no request, sleeps nowhere and leaves the table as it was.
\<close>

lemma second_run_skips_everything:
  assumes "sync_products_task R E cfg raws w = Inr (s1, w1)" and "errors s1 = 0"
    and "load_and_transform R raws = Inr ps"
    and "distinct (map (\<lambda>p. row_key R (py_get p ''sku'')) ps)"
  shows "\<exists>w2. sync_products_task R E2 cfg raws w1
                 = Inr (\<lparr>sent = 0, skipped = int (length ps), errors = 0\<rparr>, w2)
     \<and> requests w2 = requests w1 \<and> naps w2 = naps w1 \<and> db w2 = db w1
     \<and> (\<forall>p \<in> set ps. \<exists>h row. compute_hash R p = Inr h
           \<and> objects_get R w1 (py_get p ''sku'') = Some row \<and> content_hash row = h)"
proof -
  from assms(1,3) obtain c1 where run1:
    "sync_loop R E ps (EshopClient cfg, w, \<lparr>sent = 0, skipped = 0, errors = 0\<rparr>) = Inr (c1, w1, s1)"
    by (auto simp add: sync_products_task_def split: sum.splits)
  from sync_loop_first_run[OF run1 _ assms(4)] assms(2)
  have rows: "\<forall>p \<in> set ps. \<exists>h row. compute_hash R p = Inr h
           \<and> objects_get R w1 (py_get p ''sku'') = Some row \<and> content_hash row = h"
    by simp
  with load_and_transform_sku[OF assms(3)]
  have "\<forall>p \<in> set ps. map_of p ''sku'' \<noteq> None
             \<and> (\<exists>h row. compute_hash R p = Inr h
                   \<and> objects_get R w1 (py_get p ''sku'') = Some row \<and> content_hash row = h)"
    by blast
  from sync_loop_all_unchanged[OF this, of E2 "EshopClient cfg" "\<lparr>sent = 0, skipped = 0, errors = 0\<rparr>"]
  have "sync_products_task R E2 cfg raws w1
          = Inr (\<lparr>sent = 0, skipped = int (length ps), errors = 0\<rparr>,
                 w1\<lparr>journal := journal w1 @ map (\<lambda>p. Unchanged (py_get p ''sku'')) ps\<rparr>)"
    using assms(3) by (simp add: sync_products_task_def)
  with rows show ?thesis by simp
qed

lemma second_run_skips_everything_example:
  "load_and_transform example_runtime example_batch = Inr [example_product_1, example_product_3]
   \<and> summary_of (sync_products_task example_runtime (env_of [Responds created, Responds created])
         example_settings example_batch empty_world) = Some \<lparr>sent = 2, skipped = 0, errors = 0\<rparr>
   \<and> summary_of (sync_products_task example_runtime (env_of [])
         example_settings example_batch
         (world_after empty_world
            (sync_products_task example_runtime (env_of [Responds created, Responds created])
               example_settings example_batch empty_world)))
       = Some \<lparr>sent = 0, skipped = 2, errors = 0\<rparr>"
  by (simp add: example_batch_products example_product_skus example_compute_hash_1 example_compute_hash_3
      run_defs Let_def)

lemma unknown_batch_products:
  "load_and_transform R unknown_batch = Inr [unknown_product_a, unknown_product_b]"
  by (simp add: unknown_batch_def unknown_product_a_def unknown_product_b_def transformer_defs Let_def)

lemma unknown_product_skus:
  "map_of unknown_product_a ''sku'' = Some (JStr ''<unknown>'')"
  "map_of unknown_product_b ''sku'' = Some (JStr ''<unknown>'')"
  by (simp_all add: unknown_product_a_def unknown_product_b_def)

text \<open>For every runtime that gives the two products different hashes, both runs send
  both products.\<close>

lemma shared_sku_resent:
  assumes "compute_hash R unknown_product_a = Inr ha" and "compute_hash R unknown_product_b = Inr hb"
    and "ha \<noteq> hb"
  shows "summary_of (sync_products_task R
         (env_of [Responds created, Responds created, Responds created, Responds created])
         example_settings unknown_batch empty_world) = Some \<lparr>sent = 2, skipped = 0, errors = 0\<rparr>
   \<and> summary_of (sync_products_task R
         (env_of [Responds created, Responds created, Responds created, Responds created])
         example_settings unknown_batch
         (world_after empty_world
            (sync_products_task R
               (env_of [Responds created, Responds created, Responds created, Responds created])
               example_settings unknown_batch empty_world)))
       = Some \<lparr>sent = 2, skipped = 0, errors = 0\<rparr>"
  using assms not_sym[OF assms(3)]
  by (simp add: unknown_batch_products unknown_product_skus run_defs Let_def)

text \<open>
  Claim C3. The claim is that a second run over unchanged source data, after a first run
  in which every send succeeded, sends nothing. The code does not do that for the batch
  of a record without \<^verbatim>\<open>id\<close> and a record whose id is the string \<^verbatim>\<open><unknown>\<close>:
  \<open>load_erp_data\<close> keeps both (under the keys \<^verbatim>\<open>None\<close> and \<^verbatim>\<open><unknown>\<close>),
  \<open>transform_product\<close> gives both the sku \<^verbatim>\<open><unknown>\<close>, the two products share one
  \<open>ProductSyncState\<close> row, and each run leaves the hash of the second in it. After a
  first run with \<open>sent = 2\<close> and no error, the second run over the same data has
  \<open>sent = 2\<close> again.
\<close>

theorem second_run_resends_shared_sku:
  "load_and_transform example_runtime unknown_batch = Inr [unknown_product_a, unknown_product_b]
   \<and> summary_of (sync_products_task example_runtime
         (env_of [Responds created, Responds created, Responds created, Responds created])
         example_settings unknown_batch empty_world) = Some \<lparr>sent = 2, skipped = 0, errors = 0\<rparr>
   \<and> summary_of (sync_products_task example_runtime
         (env_of [Responds created, Responds created, Responds created, Responds created])
         example_settings unknown_batch
         (world_after empty_world
            (sync_products_task example_runtime
               (env_of [Responds created, Responds created, Responds created, Responds created])
               example_settings unknown_batch empty_world)))
       = Some \<lparr>sent = 2, skipped = 0, errors = 0\<rparr>"
  using shared_sku_resent[OF unknown_compute_hash_a unknown_compute_hash_b unknown_hashes_differ]
    unknown_batch_products[of example_runtime]
  by simp

lemma count_single:
  assumes "i < length xs" and "P (xs ! i)" and "\<forall>j<length xs. j \<noteq> i \<longrightarrow> \<not> P (xs ! j)"
  shows "length (filter P xs) = 1"
proof -
  have "{j. j < length xs \<and> P (xs ! j)} = {i}" using assms by auto
  then show ?thesis by (simp add: length_filter_conv_card)
qed

text \<open>
  Claim C5, as amended. When the send of a product fails, the iteration leaves the
  table of \<open>ProductSyncState\<close> rows as it was, increments \<open>errors\<close> by exactly one (and no
  other counter), and the loop goes on with the remaining products. Hence, for a batch
  of \<open>N\<close> products no two of which have the same sku as the database files it (the same
  text, or both null), in which exactly one product fails: \<open>errors\<close> grows by 1,
  \<open>sent + skipped\<close> grows by \<open>N - 1\<close> (so \<open>sent\<close> grows by \<open>N - 1\<close> when no product is
  skipped), and what \<^verbatim>\<open>objects.get\<close> finds for the failed product's sku after the run
  is what it found before the run.
\<close>

theorem failed_send_is_isolated:
  "(map_of product ''sku'' = Some sku \<and> compute_hash R product = Inr h
      \<and> \<not> (\<exists>row. objects_get R w sku = Some row \<and> content_hash row = h)
      \<and> send_product R E c product (objects_get R w sku = None) w = (Inl exc, c1, w1) \<longrightarrow>
        sync_one R E product (c, w, s)
          = Inr (c1, w1\<lparr>journal := journal w1 @ [SyncFailed sku exc]\<rparr>, s\<lparr>errors := errors s + 1\<rparr>)
      \<and> db w1 = db w
      \<and> sync_loop R E (product # rest) (c, w, s)
          = sync_loop R E rest (c1, w1\<lparr>journal := journal w1 @ [SyncFailed sku exc]\<rparr>, s\<lparr>errors := errors s + 1\<rparr>))
   \<and> (sync_loop R E ps (c, w, s) = Inr (c', w', s')
      \<and> distinct (map (\<lambda>p. row_key R (py_get p ''sku'')) ps)
      \<and> i < length ps
      \<and> is_failed (drop (length (journal w)) (journal w') ! i)
      \<and> (\<forall>j<length ps. j \<noteq> i \<longrightarrow> \<not> is_failed (drop (length (journal w)) (journal w') ! j)) \<longrightarrow>
        errors s' = errors s + 1
      \<and> sent s' + skipped s' = sent s + skipped s + int (length ps) - 1
      \<and> (skipped s' = skipped s \<longrightarrow> sent s' = sent s + int (length ps) - 1)
      \<and> objects_get R w' (py_get (ps ! i) ''sku'') = objects_get R w (py_get (ps ! i) ''sku''))"
proof (intro conjI impI)
  assume a: "map_of product ''sku'' = Some sku \<and> compute_hash R product = Inr h
      \<and> \<not> (\<exists>row. objects_get R w sku = Some row \<and> content_hash row = h)
      \<and> send_product R E c product (objects_get R w sku = None) w = (Inl exc, c1, w1)"
  then have sp: "send_product R E c product (objects_get R w sku = None) w = (Inl exc, c1, w1)" by simp
  from a have nf: "\<not> (case objects_get R w sku of None \<Rightarrow> False | Some row \<Rightarrow> content_hash row = h)"
    by (auto split: option.splits)
  show one: "sync_one R E product (c, w, s)
          = Inr (c1, w1\<lparr>journal := journal w1 @ [SyncFailed sku exc]\<rparr>, s\<lparr>errors := errors s + 1\<rparr>)"
    using a nf by (simp add: sync_one_def Let_def)
  show "db w1 = db w" using send_product_bound[OF sp] by simp
  show "sync_loop R E (product # rest) (c, w, s)
          = sync_loop R E rest (c1, w1\<lparr>journal := journal w1 @ [SyncFailed sku exc]\<rparr>, s\<lparr>errors := errors s + 1\<rparr>)"
    using one by simp
next
  assume a: "sync_loop R E ps (c, w, s) = Inr (c', w', s')
      \<and> distinct (map (\<lambda>p. row_key R (py_get p ''sku'')) ps)
      \<and> i < length ps
      \<and> is_failed (drop (length (journal w)) (journal w') ! i)
      \<and> (\<forall>j<length ps. j \<noteq> i \<longrightarrow> \<not> is_failed (drop (length (journal w)) (journal w') ! j))"
  then have run: "sync_loop R E ps (c, w, s) = Inr (c', w', s')" by simp
  from sync_loop_outcomes[OF run] obtain os where os: "journal w' = journal w @ os" "length os = length ps"
    "sent s' = sent s + int (length (filter is_synced os))"
    "skipped s' = skipped s + int (length (filter is_unchanged os))"
    "errors s' = errors s + int (length (filter is_failed os))"
    "\<forall>j<length ps. map_of (ps ! j) ''sku'' = Some (diag_sku (os ! j))"
    "\<forall>k. (\<forall>j<length ps. row_key R (diag_sku (os ! j)) = Some k \<longrightarrow> \<not> is_synced (os ! j))
          \<longrightarrow> db w' k = db w k"
    by blast
  from os(1) have dr: "drop (length (journal w)) (journal w') = os" by simp
  from a dr os(2) have f: "i < length os" "is_failed (os ! i)"
    "\<forall>j<length os. j \<noteq> i \<longrightarrow> \<not> is_failed (os ! j)" by simp_all
  from count_single[OF f] have one: "length (filter is_failed os) = 1" .
  with os(5) show e: "errors s' = errors s + 1" by simp
  from diag_partition[of os] one os(2)
  have "int (length (filter is_synced os)) + int (length (filter is_unchanged os)) = int (length ps) - 1"
    by linarith
  with os(3,4) show t: "sent s' + skipped s' = sent s + skipped s + int (length ps) - 1" by simp
  then show "sent s' = sent s + int (length ps) - 1" if "skipped s' = skipped s" using that by simp
  show "objects_get R w' (py_get (ps ! i) ''sku'') = objects_get R w (py_get (ps ! i) ''sku'')"
  proof (cases "row_key R (py_get (ps ! i) ''sku'')")
    case None
    then show ?thesis by (simp add: objects_get_def)
  next
    case (Some k)
    have "\<forall>j<length ps. row_key R (diag_sku (os ! j)) = Some k \<longrightarrow> \<not> is_synced (os ! j)"
    proof (intro allI impI)
      fix j assume j: "j < length ps" and eq: "row_key R (diag_sku (os ! j)) = Some k"
      from os(6) j have "py_get (ps ! j) ''sku'' = diag_sku (os ! j)" by (simp add: py_get_def)
      with eq Some have "map (\<lambda>p. row_key R (py_get p ''sku'')) ps ! j
                       = map (\<lambda>p. row_key R (py_get p ''sku'')) ps ! i"
        using j a by simp
      moreover from a have "distinct (map (\<lambda>p. row_key R (py_get p ''sku'')) ps)" by simp
      moreover from a j have "j < length (map (\<lambda>p. row_key R (py_get p ''sku'')) ps)"
        "i < length (map (\<lambda>p. row_key R (py_get p ''sku'')) ps)" by simp_all
      ultimately have "j = i" using nth_eq_iff_index_eq by blast
      with f(2) show "\<not> is_synced (os ! j)" by (cases "os ! i") simp_all
    qed
    with os(7) have "db w' k = db w k" by blast
    with Some show ?thesis by (simp add: objects_get_def)
  qed
qed

text \<open>
  Claim C5 as stated fails in its second half, in two ways. Where a product is skipped:
  of the two valid records of the example batch the first is unchanged and the send of
  the second fails with status 500; the run returns \<open>errors = 1\<close> and \<open>sent = 0\<close>, not
  \<open>N - 1 = 1\<close>. Where two products share a sku: in the batch of a record without
  \<^verbatim>\<open>id\<close> and a record with the id \<^verbatim>\<open><unknown>\<close>, the send of the first fails and the
  send of the second succeeds; the run returns \<open>errors = 1\<close> and \<open>sent = 1\<close>, and the row of
  the failed product's sku, absent before the run, is there after it.
\<close>

theorem failed_send_counterexample:
  "summary_of (sync_products_task example_runtime (env_of [Responds server_error])
         example_settings example_batch synced_world) = Some \<lparr>sent = 0, skipped = 1, errors = 1\<rparr>
   \<and> (0 :: int) \<noteq> int (length [example_product_1, example_product_3]) - 1
   \<and> journal (world_after empty_world
           (sync_products_task example_runtime (env_of [Responds server_error, Responds created])
              example_settings unknown_batch empty_world))
       = [SyncFailed (JStr ''<unknown>'') (HTTPError server_error), Synced (JStr ''<unknown>'') True]
   \<and> objects_get example_runtime empty_world (JStr ''<unknown>'') = None
   \<and> objects_get example_runtime (world_after empty_world
           (sync_products_task example_runtime (env_of [Responds server_error, Responds created])
              example_settings unknown_batch empty_world)) (JStr ''<unknown>'')
       = Some \<lparr>content_hash = unknown_hash_b, synced_as_new = True\<rparr>"
  by (simp add: example_batch_products unknown_batch_products example_product_skus unknown_product_skus
      example_compute_hash_1 example_compute_hash_3 unknown_compute_hash_a unknown_compute_hash_b
      synced_world_def run_defs Let_def)

theorem failed_send_is_isolated_witness:
  "fst (send_product example_runtime (env_of [Responds server_error, Responds created])
          (EshopClient example_settings) example_product_1 True empty_world) = Inl (HTTPError server_error)
   \<and> summary_of (sync_products_task example_runtime (env_of [Responds server_error, Responds created])
         example_settings example_batch empty_world) = Some \<lparr>sent = 1, skipped = 0, errors = 1\<rparr>
   \<and> objects_get example_runtime (world_after empty_world
           (sync_products_task example_runtime (env_of [Responds server_error, Responds created])
              example_settings example_batch empty_world)) (JStr ''SKU-001'') = None
   \<and> journal (world_after empty_world
           (sync_products_task example_runtime (env_of [Responds server_error, Responds created])
              example_settings example_batch empty_world))
       = [SyncFailed (JStr ''SKU-001'') (HTTPError server_error), Synced (JStr ''SKU-003'') True]"
  using failed_send_is_isolated [of example_product_1 "JStr ''SKU-001''" example_runtime example_hash_1
      empty_world
      "env_of [Responds server_error, Responds created]" "EshopClient example_settings"
      "HTTPError server_error"
      "fst (snd (send_product example_runtime (env_of [Responds server_error, Responds created])
          (EshopClient example_settings) example_product_1 True empty_world))"
      "snd (snd (send_product example_runtime (env_of [Responds server_error, Responds created])
          (EshopClient example_settings) example_product_1 True empty_world))"
      "\<lparr>sent = 0, skipped = 0, errors = 0\<rparr>" "[example_product_3]"
      "[example_product_1, example_product_3]"
      "fst (projr (sync_loop example_runtime (env_of [Responds server_error, Responds created])
          [example_product_1, example_product_3]
          (EshopClient example_settings, empty_world, \<lparr>sent = 0, skipped = 0, errors = 0\<rparr>)))"
      "fst (snd (projr (sync_loop example_runtime (env_of [Responds server_error, Responds created])
          [example_product_1, example_product_3]
          (EshopClient example_settings, empty_world, \<lparr>sent = 0, skipped = 0, errors = 0\<rparr>))))"
      "snd (snd (projr (sync_loop example_runtime (env_of [Responds server_error, Responds created])
          [example_product_1, example_product_3]
          (EshopClient example_settings, empty_world, \<lparr>sent = 0, skipped = 0, errors = 0\<rparr>))))"
      0]
  by (simp add: example_batch_products example_product_skus example_compute_hash_1 example_compute_hash_3
      run_defs Let_def py_get_def)

end
